theory Spec2Isabelle
  imports Complex_Main
begin

section \<open>Strings of the Python runtime\<close>

text \<open>
  A Python \<open>str\<close> is modelled as a \<open>string\<close> whose characters are the code points
  below 256. The backslash cannot be written inside a string literal, so it gets a name.
\<close>

definition bslash :: char where
  "bslash = CHR 0x5C"

definition newline :: char where
  "newline = CHR 0x0A"

definition dollar :: char where
  "dollar = CHR ''$''"

text \<open>
  \<open>str.isspace\<close> on one character, which is also what \<open>\s\<close> matches in a \<open>str\<close>
  pattern: tab, line feed, vertical tab, form feed, carriage return, the four separators
  0x1C to 0x1F, the space, and (below 256) NEL 0x85 and the no-break space 0xA0.
\<close>

definition is_space :: "char \<Rightarrow> bool" where
  "is_space c =
     (let n = (of_char c :: nat)
      in (9 \<le> n \<and> n \<le> 13) \<or> (28 \<le> n \<and> n \<le> 32) \<or> n = 133 \<or> n = 160)"

text \<open>\<open>s.strip()\<close>: leading and trailing whitespace removed.\<close>

definition strip_ws :: "string \<Rightarrow> string" where
  "strip_ws s = rev (dropWhile is_space (rev (dropWhile is_space s)))"

text \<open>\<open>"=" in s\<close> and \<open>s.split("=", 1)[1]\<close>, the latter used only under the former.\<close>

definition has_eq :: "string \<Rightarrow> bool" where
  "has_eq s = (CHR ''='' \<in> set s)"

definition after_first_eq :: "string \<Rightarrow> string" where
  "after_first_eq s = drop 1 (dropWhile (\<lambda>c. c \<noteq> CHR ''='') s)"

text \<open>\<open>str(n)\<close> for an integer: decimal digits, a minus sign for negative numbers.\<close>

fun digits_of :: "nat \<Rightarrow> string" where
  "digits_of n =
     (if n < 10 then [char_of (48 + n)]
      else digits_of (n div 10) @ [char_of (48 + n mod 10)])"

definition str_int :: "int \<Rightarrow> string" where
  "str_int i = (if i < 0 then CHR ''-'' # digits_of (nat (- i)) else digits_of (nat i))"

section \<open>The regular-expression substitutions of \<open>latex_utils.py\<close>\<close>

text \<open>
  \<open>re.sub(r"\s+", "", s)\<close>: every maximal run of whitespace is replaced by the empty
  string, which leaves exactly the characters that are not whitespace.
\<close>

definition remove_ws :: "string \<Rightarrow> string" where
  "remove_ws s = filter (\<lambda>c. \<not> is_space c) s"

text \<open>
  \<open>re.sub(r"^\$|\$$", "", s)\<close>. The first alternative matches a dollar at position 0
  only. The second matches a dollar that is the last character, or that stands before
  a line feed which is the last character (the \<open>$\<close> anchor without \<open>re.MULTILINE\<close>).
  A one-character string \<open>$\<close> is consumed by the first alternative.
\<close>

definition drop_end_dollar :: "string \<Rightarrow> string" where
  "drop_end_dollar r =
     (case rev r of
        [] \<Rightarrow> r
      | c # t \<Rightarrow>
          if c = dollar then rev t
          else if c = newline then
            (case t of
               [] \<Rightarrow> r
             | d # u \<Rightarrow> if d = dollar then rev u @ [newline] else r)
          else r)"

definition sub_dollar_anchors :: "string \<Rightarrow> string" where
  "sub_dollar_anchors s =
     (case s of
        [] \<Rightarrow> []
      | c # r \<Rightarrow> if c = dollar then drop_end_dollar r else c # drop_end_dollar r)"

text \<open>
  \<open>clean_latex\<close> (latex_utils.py, lines 24 to 26).
\<close>

definition clean_latex :: "string \<Rightarrow> string" where
  "clean_latex latex = sub_dollar_anchors (remove_ws latex)"

subsection \<open>Scanning substitution\<close>

text \<open>
  \<open>re.sub(pattern, repl, s)\<close> scans \<open>s\<close> from the left; where the pattern matches,
  the match is replaced and scanning resumes after it, otherwise one character is copied.
  A matcher tries the pattern at the start of a string and returns the replacement and
  the rest of the string. Every pattern below consumes at least one character, which is
  what the length test records.
\<close>

fun re_sub :: "(string \<Rightarrow> (string \<times> string) option) \<Rightarrow> string \<Rightarrow> string" where
  "re_sub m [] = []"
| "re_sub m (c # cs) =
     (case m (c # cs) of
        None \<Rightarrow> c # re_sub m cs
      | Some (rep, rest) \<Rightarrow>
          if length rest \<le> length cs then rep @ re_sub m rest else c # re_sub m cs)"

text \<open>A literal piece of a pattern.\<close>

definition lit :: "string \<Rightarrow> string \<Rightarrow> string option" where
  "lit p s = (if take (length p) s = p then Some (drop (length p) s) else None)"

text \<open>
  The piece \<open>([^c]+)c\<close> for a closing character \<open>c\<close>: the group is greedy, and only
  the longest run of characters other than \<open>c\<close> is followed by \<open>c\<close>, so backtracking
  to a shorter run never succeeds.
\<close>

definition group_until :: "char \<Rightarrow> string \<Rightarrow> (string \<times> string) option" where
  "group_until c s =
     (let g = takeWhile (\<lambda>x. x \<noteq> c) s; r = dropWhile (\<lambda>x. x \<noteq> c) s
      in if g \<noteq> [] \<and> r \<noteq> [] then Some (g, tl r) else None)"

text \<open>\<open>\\frac\{([^}]+)\}\{([^}]+)\}\<close> with replacement \<open>(\1)/(\2)\<close>.\<close>

definition match_frac :: "string \<Rightarrow> (string \<times> string) option" where
  "match_frac s =
     (case lit (bslash # ''frac{'') s of
        None \<Rightarrow> None
      | Some s1 \<Rightarrow>
          (case group_until (CHR ''}'') s1 of
             None \<Rightarrow> None
           | Some (a, s2) \<Rightarrow>
               (case lit ''{'' s2 of
                  None \<Rightarrow> None
                | Some s3 \<Rightarrow>
                    (case group_until (CHR ''}'') s3 of
                       None \<Rightarrow> None
                     | Some (b, s4) \<Rightarrow> Some (''('' @ a @ '')/('' @ b @ '')'', s4)))))"

text \<open>\<open>\\NAME\{([^}]+)\}\<close> with replacement \<open>OUT(\1)\<close>.\<close>

definition match_macro :: "string \<Rightarrow> string \<Rightarrow> string \<Rightarrow> (string \<times> string) option" where
  "match_macro name out s =
     (case lit (bslash # name @ ''{'') s of
        None \<Rightarrow> None
      | Some s1 \<Rightarrow>
          (case group_until (CHR ''}'') s1 of
             None \<Rightarrow> None
           | Some (a, s2) \<Rightarrow> Some (out @ ''('' @ a @ '')'', s2)))"

text \<open>\<open>\\sqrt\[([^]]+)\]\{([^}]+)\}\<close> with replacement \<open>(\2)**(1/(\1))\<close>.\<close>

definition match_root :: "string \<Rightarrow> (string \<times> string) option" where
  "match_root s =
     (case lit (bslash # ''sqrt['') s of
        None \<Rightarrow> None
      | Some s1 \<Rightarrow>
          (case group_until (CHR '']'') s1 of
             None \<Rightarrow> None
           | Some (n, s2) \<Rightarrow>
               (case lit ''{'' s2 of
                  None \<Rightarrow> None
                | Some s3 \<Rightarrow>
                    (case group_until (CHR ''}'') s3 of
                       None \<Rightarrow> None
                     | Some (a, s4) \<Rightarrow> Some (''('' @ a @ '')**(1/('' @ n @ ''))'', s4)))))"

text \<open>A pattern that is one literal, with a constant replacement.\<close>

definition match_word :: "string \<Rightarrow> string \<Rightarrow> string \<Rightarrow> (string \<times> string) option" where
  "match_word p out s = (case lit p s of None \<Rightarrow> None | Some r \<Rightarrow> Some (out, r))"

text \<open>
  The rewrites of \<open>latex_to_sympy\<close> (latex_utils.py, lines 32 to 49), in the order of
  the source. \<open>later_rewrites\<close> is everything after the fraction rule.
\<close>

definition later_rewrites :: "string \<Rightarrow> string" where
  "later_rewrites s2 =
     (let s3 = re_sub (match_macro ''sqrt'' ''sqrt'') s2;
          s4 = re_sub match_root s3;
          s5 = re_sub (match_macro ''sin'' ''sin'') s4;
          s6 = re_sub (match_macro ''cos'' ''cos'') s5;
          s7 = re_sub (match_macro ''tan'' ''tan'') s6;
          s8 = re_sub (match_macro ''log'' ''log'') s7;
          s9 = re_sub (match_macro ''ln'' ''log'') s8;
          s10 = re_sub (match_word (bslash # ''pi'') ''pi'') s9;
          s11 = re_sub (match_word (bslash # ''theta'') ''theta'') s10;
          s12 = re_sub (match_word (bslash # ''infty'') ''oo'') s11;
          s13 = re_sub (match_word (bslash # ''mathrm{e}'') ''E'') s12;
          s14 = re_sub (match_word (bslash # ''cdot'') ''*'') s13;
          s15 = re_sub (match_word (bslash # ''div'') ''/'') s14
      in re_sub (match_word (bslash # ''pm'') ''+/-'') s15)"

definition latex_translate :: "string \<Rightarrow> string" where
  "latex_translate latex =
     (let s1 = sub_dollar_anchors (strip_ws latex);
          s2 = re_sub match_frac s1
      in later_rewrites s2)"

subsection \<open>The delimiter search of \<open>extract_math_expr\<close>\<close>

text \<open>
  The pattern is \<open>\${1,2}(.*?)\${1,2}\<close>. The group is lazy and \<open>.\<close> does not match a
  line feed, so the group is the run of characters up to the first dollar, and there is
  no match when a line feed or the end of the string comes first. The result is the
  group and what follows that dollar.
\<close>

fun content_upto_dollar :: "string \<Rightarrow> (string \<times> string) option" where
  "content_upto_dollar [] = None"
| "content_upto_dollar (c # cs) =
     (if c = dollar then Some ([], cs)
      else if c = newline then None
      else (case content_upto_dollar cs of
              None \<Rightarrow> None
            | Some (g, r) \<Rightarrow> Some (c # g, r)))"

text \<open>The closing \<open>\${1,2}\<close> is greedy: after its first dollar it takes a second one.\<close>

definition close_dollars :: "string \<Rightarrow> string" where
  "close_dollars r = (case r of [] \<Rightarrow> [] | c # r' \<Rightarrow> if c = dollar then r' else r)"

text \<open>
  The whole pattern at the start of a string. The opening \<open>\${1,2}\<close> is greedy: with two
  dollars in front it takes both; if the rest of the pattern then fails, it backtracks
  to one dollar, and the second dollar closes an empty group.
\<close>

definition match_delimited :: "string \<Rightarrow> (string \<times> string) option" where
  "match_delimited s =
     (case s of
        [] \<Rightarrow> None
      | c # r \<Rightarrow>
          if c \<noteq> dollar then None
          else (case r of
                  [] \<Rightarrow> None
                | d # r2 \<Rightarrow>
                    if d = dollar then
                      (case content_upto_dollar r2 of
                         Some (g, rest) \<Rightarrow> Some (g, close_dollars rest)
                       | None \<Rightarrow> Some ([], close_dollars r2))
                    else
                      (case content_upto_dollar r of
                         Some (g, rest) \<Rightarrow> Some (g, close_dollars rest)
                       | None \<Rightarrow> None)))"

text \<open>
  \<open>re.findall\<close> with one group: the groups of the successive matches, left to right.
  A match here consumes at least two characters.
\<close>

fun findall_delimited :: "string \<Rightarrow> string list" where
  "findall_delimited [] = []"
| "findall_delimited (c # cs) =
     (case match_delimited (c # cs) of
        None \<Rightarrow> findall_delimited cs
      | Some (g, rest) \<Rightarrow>
          if length rest \<le> length cs then g # findall_delimited rest
          else findall_delimited cs)"

text \<open>\<open>extract_math_expr\<close> (latex_utils.py, lines 19 to 21).\<close>

definition extract_math_expr :: "string \<Rightarrow> string" where
  "extract_math_expr latex =
     (case findall_delimited latex of
        [] \<Rightarrow> strip_ws latex
      | m # ms \<Rightarrow> strip_ws m)"

section \<open>The runtime outside the repository\<close>

text \<open>
  Exceptions are values. \<open>ValueError\<close> is the one class the source names in a handler;
  \<open>OtherException\<close> is every other subclass of \<open>Exception\<close>; \<open>ExitException\<close> is an
  exception outside \<open>Exception\<close> (\<open>SystemExit\<close>, \<open>KeyboardInterrupt\<close>, \<open>GeneratorExit\<close>),
  which a handler \<open>except Exception\<close> does not catch. The string is the text that
  \<open>str(e)\<close> returns.
\<close>

datatype exn = ValueError string | OtherException string | ExitException string

fun exn_text :: "exn \<Rightarrow> string" where
  "exn_text (ValueError m) = m"
| "exn_text (OtherException m) = m"
| "exn_text (ExitException m) = m"

text \<open>\<open>isinstance(e, Exception)\<close>.\<close>

fun is_Exception :: "exn \<Rightarrow> bool" where
  "is_Exception (ValueError m) = True"
| "is_Exception (OtherException m) = True"
| "is_Exception (ExitException m) = False"

text \<open>
  A Python float is a finite number, an infinity or NaN. A finite float is modelled by
  the real number it denotes; the rounding and the overflow of an operation are not
  modelled. Subtraction, \<open>abs\<close> and \<open><\<close> treat infinities and NaN as IEEE 754 does.
\<close>

datatype pyfloat = Finite real | PosInf | NegInf | NaN

fun float_sub :: "pyfloat \<Rightarrow> pyfloat \<Rightarrow> pyfloat" where
  "float_sub (Finite x) (Finite y) = Finite (x - y)"
| "float_sub NaN b = NaN"
| "float_sub a NaN = NaN"
| "float_sub PosInf PosInf = NaN"
| "float_sub NegInf NegInf = NaN"
| "float_sub PosInf b = PosInf"
| "float_sub NegInf b = NegInf"
| "float_sub (Finite x) PosInf = NegInf"
| "float_sub (Finite x) NegInf = PosInf"

fun float_abs :: "pyfloat \<Rightarrow> pyfloat" where
  "float_abs (Finite x) = Finite \<bar>x\<bar>"
| "float_abs PosInf = PosInf"
| "float_abs NegInf = PosInf"
| "float_abs NaN = NaN"

fun float_lt :: "pyfloat \<Rightarrow> pyfloat \<Rightarrow> bool" where
  "float_lt (Finite x) (Finite y) = (x < y)"
| "float_lt NaN b = False"
| "float_lt a NaN = False"
| "float_lt a NegInf = False"
| "float_lt NegInf b = True"
| "float_lt PosInf b = False"
| "float_lt (Finite x) PosInf = True"

text \<open>The literal \<open>1e-9\<close>.\<close>

definition float_1e_9 :: pyfloat where
  "float_1e_9 = Finite (1 / 1000000000)"

text \<open>
  The built-in \<open>int\<close> and SymPy are not code of the repository. They are parameters of
  the model, and each may raise; \<open>'e\<close> is the type of SymPy expressions.
  \<^item> \<open>py_int s\<close> is \<open>int(s)\<close>;
  \<^item> \<open>sympify s\<close> is \<open>sympy.sympify(s)\<close>, which evaluates the string and may also
    return \<open>None\<close>;
  \<^item> \<open>evalf_float e\<close> is \<open>float(e.evalf())\<close>;
  \<^item> \<open>cas_simplify\<close>, \<open>cas_expand\<close>, \<open>cas_factor\<close> are \<open>simplify\<close>, \<open>expand\<close>,
    \<open>factor\<close>; \<open>cas_sub\<close> is \<open>-\<close> on expressions;
  \<^item> \<open>cas_equals a b\<close> is the truth value of \<open>a.equals(b)\<close> (which is \<open>True\<close>,
    \<open>False\<close> or \<open>None\<close>), and \<open>cas_is_zero a\<close> is \<open>a == 0\<close>.
\<close>

record 'e runtime =
  py_int :: "string \<Rightarrow> exn + int"
  sympify :: "string \<Rightarrow> exn + 'e option"
  evalf_float :: "'e \<Rightarrow> exn + pyfloat"
  cas_simplify :: "'e \<Rightarrow> exn + 'e"
  cas_expand :: "'e \<Rightarrow> exn + 'e"
  cas_factor :: "'e \<Rightarrow> exn + 'e"
  cas_sub :: "'e \<Rightarrow> 'e \<Rightarrow> exn + 'e"
  cas_equals :: "'e \<Rightarrow> 'e \<Rightarrow> exn + bool"
  cas_is_zero :: "'e \<Rightarrow> exn + bool"

text \<open>Sequencing of computations that may raise.\<close>

definition bind_exn :: "exn + 'a \<Rightarrow> ('a \<Rightarrow> exn + 'b) \<Rightarrow> exn + 'b" where
  "bind_exn m f = (case m of Inl e \<Rightarrow> Inl e | Inr x \<Rightarrow> f x)"

text \<open>
  \<open>try: return ... except Exception: return False\<close>: an exception outside
  \<open>Exception\<close> is not caught.
\<close>

definition except_false :: "exn + bool \<Rightarrow> exn + bool" where
  "except_false m =
     (case m of
        Inr b \<Rightarrow> Inr b
      | Inl e \<Rightarrow> if is_Exception e then Inr False else Inl e)"

section \<open>The parser and the strategies of \<open>latex_utils.py\<close>\<close>

text \<open>
  \<open>latex_to_sympy\<close> (lines 29 to 53): the rewrites cannot raise; an \<open>Exception\<close> of
  \<open>sympify\<close> is caught and gives \<open>None\<close>.
\<close>

definition latex_to_sympy :: "'e runtime \<Rightarrow> string \<Rightarrow> exn + 'e option" where
  "latex_to_sympy rt latex =
     (case sympify rt (latex_translate latex) of
        Inr r \<Rightarrow> Inr r
      | Inl e \<Rightarrow> if is_Exception e then Inr None else Inl e)"

text \<open>
  \<open>check_numeric_equivalence\<close> (lines 56 to 64). Both sides are parsed before either
  is tested for \<open>None\<close>.
\<close>

definition check_numeric_equivalence :: "'e runtime \<Rightarrow> string \<Rightarrow> string \<Rightarrow> exn + bool" where
  "check_numeric_equivalence rt e1 e2 =
     except_false
       (bind_exn (latex_to_sympy rt e1) (\<lambda>s1.
        bind_exn (latex_to_sympy rt e2) (\<lambda>s2.
          case s1 of
            None \<Rightarrow> Inr False
          | Some x1 \<Rightarrow>
              (case s2 of
                 None \<Rightarrow> Inr False
               | Some x2 \<Rightarrow>
                   bind_exn (evalf_float rt x1) (\<lambda>f1.
                   bind_exn (evalf_float rt x2) (\<lambda>f2.
                     Inr (float_lt (float_abs (float_sub f1 f2)) float_1e_9)))))))"

text \<open>\<open>check_symbolic_equivalence\<close> (lines 67 to 73).\<close>

definition check_symbolic_equivalence :: "'e runtime \<Rightarrow> string \<Rightarrow> string \<Rightarrow> exn + bool" where
  "check_symbolic_equivalence rt e1 e2 =
     except_false
       (bind_exn (latex_to_sympy rt e1) (\<lambda>s1.
        bind_exn (latex_to_sympy rt e2) (\<lambda>s2.
          case s1 of
            None \<Rightarrow> Inr False
          | Some x1 \<Rightarrow>
              (case s2 of
                 None \<Rightarrow> Inr False
               | Some x2 \<Rightarrow>
                   bind_exn (cas_simplify rt x1) (\<lambda>t1.
                   bind_exn (cas_simplify rt x2) (\<lambda>t2.
                     cas_equals rt t1 t2))))))"

text \<open>\<open>check_algebraic_equivalence\<close> (lines 76 to 88).\<close>

definition check_algebraic_equivalence :: "'e runtime \<Rightarrow> string \<Rightarrow> string \<Rightarrow> exn + bool" where
  "check_algebraic_equivalence rt e1 e2 =
     except_false
       (bind_exn (latex_to_sympy rt e1) (\<lambda>s1.
        bind_exn (latex_to_sympy rt e2) (\<lambda>s2.
          case s1 of
            None \<Rightarrow> Inr False
          | Some x1 \<Rightarrow>
              (case s2 of
                 None \<Rightarrow> Inr False
               | Some x2 \<Rightarrow>
                   bind_exn (cas_expand rt x1) (\<lambda>a1.
                   bind_exn (cas_expand rt x2) (\<lambda>a2.
                   bind_exn (cas_equals rt a1 a2) (\<lambda>same_expanded.
                     if same_expanded then Inr True
                     else
                       bind_exn (cas_factor rt x1) (\<lambda>p1.
                       bind_exn (cas_factor rt x2) (\<lambda>p2.
                       bind_exn (cas_equals rt p1 p2) (\<lambda>same_factored.
                         if same_factored then Inr True
                         else
                           bind_exn (cas_sub rt x1 x2) (\<lambda>d.
                           bind_exn (cas_simplify rt d) (\<lambda>z.
                             cas_is_zero rt z))))))))))))"

text \<open>
  \<open>are_equivalent\<close> (lines 91 to 102). The function has no handler of its own: what
  \<open>check_symbolic_equivalence\<close> lets through leaves it.
\<close>

definition are_equivalent :: "'e runtime \<Rightarrow> string \<Rightarrow> string \<Rightarrow> exn + bool" where
  "are_equivalent rt user_expr correct_expr =
     bind_exn (check_symbolic_equivalence rt user_expr correct_expr) (\<lambda>direct.
       if direct then Inr True
       else
         bind_exn
           (if has_eq correct_expr \<and> \<not> has_eq user_expr
            then check_symbolic_equivalence rt user_expr (strip_ws (after_first_eq correct_expr))
            else Inr False) (\<lambda>by_reference.
         if by_reference then Inr True
         else
           bind_exn
             (if has_eq user_expr \<and> \<not> has_eq correct_expr
              then check_symbolic_equivalence rt (strip_ws (after_first_eq user_expr)) correct_expr
              else Inr False) (\<lambda>by_candidate.
           if by_candidate then Inr True else Inr False)))"

section \<open>The request handler of \<open>routers/answer.py\<close>\<close>

datatype ProblemType = SHORT_ANSWER | MULTIPLE_CHOICE

record AnswerCheckRequest =
  user_answer :: string
  correct_answer :: string
  problem_type :: "string option"
  question_type :: "ProblemType option"
  selected_option :: "int option"

record AnswerCheckResponse =
  is_correct :: bool
  confidence :: real
  explanation :: string
  error_message :: "string option"
  recognized_latex :: "string option"

text \<open>The constructor call with its defaults: both optional fields are \<open>None\<close> unless given.\<close>

definition response :: "bool \<Rightarrow> real \<Rightarrow> string \<Rightarrow> string option \<Rightarrow> AnswerCheckResponse" where
  "response ok conf expl err =
     \<lparr>is_correct = ok, confidence = conf, explanation = expl, error_message = err,
      recognized_latex = None\<rparr>"

text \<open>
  The list of lines 47 to 53: name, outcome and weight of each strategy. The four calls
  are made in this order while the list is built, before the list is searched; a call
  that lets an exception through ends the construction.
\<close>

definition strategies ::
  "'e runtime \<Rightarrow> string \<Rightarrow> string \<Rightarrow> exn + (string \<times> bool \<times> real) list" where
  "strategies rt user_expr corr_expr =
     bind_exn (check_numeric_equivalence rt user_expr corr_expr) (\<lambda>numeric.
     bind_exn (check_symbolic_equivalence rt user_expr corr_expr) (\<lambda>symbolic.
     bind_exn (check_algebraic_equivalence rt user_expr corr_expr) (\<lambda>algebraic.
     bind_exn (are_equivalent rt user_expr corr_expr) (\<lambda>rhs_equiv.
       Inr [(''latex_exact'', user_expr = corr_expr, 1),
            (''numeric'', numeric, 9 / 10),
            (''symbolic'', symbolic, 8 / 10),
            (''algebraic'', algebraic, 7 / 10),
            (''rhs_equiv'', rhs_equiv, 95 / 100)]))))"

text \<open>
  \<open>next(((name, conf) for name, ok, conf in strategies if ok), None)\<close>: the first entry
  whose outcome is true.
\<close>

fun first_ok :: "(string \<times> bool \<times> real) list \<Rightarrow> (string \<times> real) option" where
  "first_ok [] = None"
| "first_ok ((name, ok, conf) # rest) = (if ok then Some (name, conf) else first_ok rest)"

text \<open>Lines 44 to 66, the path of a short answer.\<close>

definition check_short_answer ::
  "'e runtime \<Rightarrow> AnswerCheckRequest \<Rightarrow> exn + AnswerCheckResponse" where
  "check_short_answer rt request =
     (let user_expr = clean_latex (extract_math_expr (strip_ws (user_answer request)));
          corr_expr = clean_latex (extract_math_expr (strip_ws (correct_answer request)))
      in bind_exn (strategies rt user_expr corr_expr) (\<lambda>entries.
           case first_ok entries of
             Some (name, conf) \<Rightarrow>
               Inr (response True conf (''Answer correct via '' @ name @ '' comparison'') None)
           | None \<Rightarrow>
               Inr (response False 0
                 (''Answer is incorrect. Expected '' @ corr_expr @ '', got '' @ user_expr) None)))"

text \<open>
  Lines 20 to 42, the path of a multiple-choice question. The inner handler catches
  \<open>ValueError\<close> only; any other exception leaves this block.
\<close>

definition check_multiple_choice ::
  "'e runtime \<Rightarrow> AnswerCheckRequest \<Rightarrow> exn + AnswerCheckResponse" where
  "check_multiple_choice rt request =
     (case selected_option request of
        None \<Rightarrow> Inr (response False 0 ''No option selected'' None)
      | Some sel \<Rightarrow>
          (case py_int rt (correct_answer request) of
             Inr correct_idx \<Rightarrow>
               (let is_corr = (sel = correct_idx)
                in Inr (response is_corr (if is_corr then 1 else 0)
                     (if is_corr then ''Correct answer selected''
                      else ''Incorrect. Correct option was '' @ str_int (correct_idx + 1) @ ''.'')
                     None))
           | Inl (ValueError m) \<Rightarrow>
               Inr (response False 0 ''Invalid correct_answer format''
                      (Some ''Invalid correct_answer format''))
           | Inl e \<Rightarrow> Inl e))"

text \<open>The body of the outer \<open>try\<close> (lines 20 to 66).\<close>

definition check_answer_body ::
  "'e runtime \<Rightarrow> AnswerCheckRequest \<Rightarrow> exn + AnswerCheckResponse" where
  "check_answer_body rt request =
     (if question_type request = Some MULTIPLE_CHOICE then check_multiple_choice rt request
      else check_short_answer rt request)"

text \<open>
  \<open>check_answer\<close> (lines 17 to 74): the outer handler \<open>except Exception\<close> turns an
  exception into a response; an exception outside \<open>Exception\<close> leaves the function.
  Writing to the log is not modelled.
\<close>

definition check_answer ::
  "'e runtime \<Rightarrow> AnswerCheckRequest \<Rightarrow> exn + AnswerCheckResponse" where
  "check_answer rt request =
     (case check_answer_body rt request of
        Inr r \<Rightarrow> Inr r
      | Inl e \<Rightarrow>
          if is_Exception e then Inr (response False 0 ''Validation error'' (Some (exn_text e)))
          else Inl e)"

text \<open>The normalisation of lines 44 and 45, applied to both answers.\<close>

abbreviation normalized :: "string \<Rightarrow> string" where
  "normalized s \<equiv> clean_latex (extract_math_expr (strip_ws s))"

section \<open>A runtime for concrete inputs\<close>

text \<open>
  The theorems below hold for every runtime. To evaluate the model on concrete inputs
  one runtime is fixed here. It lists what Python and SymPy return on the strings that
  the examples use, and treats every other string as one that \<open>int\<close> and \<open>sympify\<close>
  reject.

  \<open>int\<close> on an optional sign followed by decimal digits, where \<open>dec_int\<close> agrees with
  Python:
\<close>

definition is_digit :: "char \<Rightarrow> bool" where
  "is_digit c = (48 \<le> (of_char c :: nat) \<and> (of_char c :: nat) \<le> 57)"

definition digits_value :: "string \<Rightarrow> nat" where
  "digits_value ds = foldl (\<lambda>a c. 10 * a + (of_char c - 48)) 0 ds"

definition dec_int :: "string \<Rightarrow> exn + int" where
  "dec_int s =
     (let neg = (take 1 s = ''-'');
          ds = (if take 1 s = ''-'' \<or> take 1 s = ''+'' then drop 1 s else s)
      in if ds \<noteq> [] \<and> list_all is_digit ds
         then Inr (if neg then - int (digits_value ds) else int (digits_value ds))
         else Inl (ValueError ''invalid literal for int() with base 10''))"

text \<open>
  Expressions: a number, a multiple of a symbol, a relation kept as its text, and a
  difference that does not simplify.
\<close>

datatype expr = Number real | Monomial real string | Relation string | Difference expr expr

text \<open>
  \<open>sympify\<close>: numbers and \<open>x\<close>, \<open>2*x\<close> and \<open>x+x\<close> (which SymPy evaluates to the same
  product) and the relation \<open>x>=1\<close> are parsed; a call of \<open>sys.exit\<close> is evaluated and
  raises \<open>SystemExit\<close>; a number followed by a name (\<open>2x\<close>), an assignment sign and
  anything else is a syntax error, which SymPy reports as \<open>SympifyError\<close>.
\<close>

definition exit_call :: string where
  "exit_call = ''__import__('sys').exit()''"

definition sample_sympify :: "string \<Rightarrow> exn + expr option" where
  "sample_sympify s =
     (if s = ''12'' \<or> s = ''12.0'' then Inr (Some (Number 12))
      else if s = ''0.5'' then Inr (Some (Number (5 / 10)))
      else if s = ''0.5000000001'' then Inr (Some (Number (5000000001 / 10000000000)))
      else if s = ''0.500000002'' then Inr (Some (Number (500000002 / 1000000000)))
      else if s = ''x'' then Inr (Some (Monomial 1 ''x''))
      else if s = ''2*x'' \<or> s = ''x+x'' then Inr (Some (Monomial 2 ''x''))
      else if s = ''x>=1'' then Inr (Some (Relation ''x >= 1''))
      else if s = exit_call then Inl (ExitException [])
      else Inl (OtherException ''SympifyError''))"

text \<open>
  \<open>float(e.evalf())\<close> is defined on numbers only; \<open>a - b\<close> is a number for two
  numbers, zero for equal expressions and a difference otherwise; the expressions are in
  simplified, expanded and factored form already; \<open>equals\<close> compares them.
\<close>

fun sample_evalf :: "expr \<Rightarrow> exn + pyfloat" where
  "sample_evalf (Number v) = Inr (Finite v)"
| "sample_evalf e = Inl (OtherException ''Cannot convert expression to float'')"

fun sample_sub :: "expr \<Rightarrow> expr \<Rightarrow> exn + expr" where
  "sample_sub (Number v) (Number w) = Inr (Number (v - w))"
| "sample_sub a b = Inr (if a = b then Number 0 else Difference a b)"

definition sample_runtime :: "expr runtime" where
  "sample_runtime =
     \<lparr>py_int = dec_int,
      sympify = sample_sympify,
      evalf_float = sample_evalf,
      cas_simplify = Inr,
      cas_expand = Inr,
      cas_factor = Inr,
      cas_sub = sample_sub,
      cas_equals = (\<lambda>a b. Inr (a = b)),
      cas_is_zero = (\<lambda>a. Inr (a = Number 0))\<rparr>"

text \<open>
  Requests as the transport layer builds them, with the defaults of
  \<open>AnswerCheckRequest\<close>, and a runtime whose \<open>int\<close> fails with an exception that is
  not a \<open>ValueError\<close>.
\<close>

definition short_request :: "string \<Rightarrow> string \<Rightarrow> AnswerCheckRequest" where
  "short_request u c =
     \<lparr>user_answer = u, correct_answer = c, problem_type = Some ''general'',
      question_type = Some SHORT_ANSWER, selected_option = None\<rparr>"

definition choice_request :: "int option \<Rightarrow> string \<Rightarrow> AnswerCheckRequest" where
  "choice_request sel c =
     \<lparr>user_answer = [], correct_answer = c, problem_type = Some ''general'',
      question_type = Some MULTIPLE_CHOICE, selected_option = sel\<rparr>"

definition failing_runtime :: "expr runtime" where
  "failing_runtime = sample_runtime\<lparr>py_int := (\<lambda>s. Inl (OtherException ''out of memory''))\<rparr>"

section \<open>The words of the specification\<close>

text \<open>
  For the extractor, "a substring delimited by one or two dollar characters on each
  side": \<open>raw\<close> splits into a prefix, an opening of one or two dollars, the content, a
  closing of one or two dollars, and a rest.
\<close>

definition dollar_delimited ::
  "string \<Rightarrow> string \<Rightarrow> string \<Rightarrow> string \<Rightarrow> string \<Rightarrow> string \<Rightarrow> bool" where
  "dollar_delimited raw pre d1 c d2 post =
     (raw = pre @ d1 @ c @ d2 @ post
      \<and> (d1 = [dollar] \<or> d1 = [dollar, dollar])
      \<and> (d2 = [dollar] \<or> d2 = [dollar, dollar]))"

text \<open>
  "The first such match", for contents on one line: no match starts further left, the
  opening takes two dollars whenever a match with two opening dollars starts at the same
  place, and the content ends at the first dollar after the opening.
\<close>

definition first_delimited ::
  "string \<Rightarrow> string \<Rightarrow> string \<Rightarrow> string \<Rightarrow> string \<Rightarrow> string \<Rightarrow> bool" where
  "first_delimited raw pre d1 c d2 post =
     (dollar_delimited raw pre d1 c d2 post
      \<and> newline \<notin> set c \<and> dollar \<notin> set c
      \<and> (\<forall>pre' d1' c' d2' post'.
            dollar_delimited raw pre' d1' c' d2' post' \<and> newline \<notin> set c' \<longrightarrow>
            length pre \<le> length pre')
      \<and> (d1 = [dollar] \<longrightarrow>
            \<not> (\<exists>c' d2' post'.
                 dollar_delimited raw pre [dollar, dollar] c' d2' post' \<and> newline \<notin> set c')))"


section \<open>Properties of the cleaner\<close>

lemma is_space_newline: "is_space newline"
  by (simp add: is_space_def newline_def)

lemma not_space_dollar: "\<not> is_space dollar"
  by (simp add: is_space_def dollar_def)

lemma remove_ws_no_space: "\<forall>c \<in> set (remove_ws s). \<not> is_space c"
  by (simp add: remove_ws_def)

lemma remove_ws_id: "\<forall>c \<in> set s. \<not> is_space c \<Longrightarrow> remove_ws s = s"
  by (simp add: remove_ws_def)

lemma set_drop_end_dollar: "set (drop_end_dollar r) \<subseteq> set r"
proof (cases "rev r")
  case Nil
  then show ?thesis by (simp add: drop_end_dollar_def)
next
  case (Cons c t)
  then have r: "r = rev t @ [c]" by (metis rev.simps(2) rev_rev_ident)
  show ?thesis
  proof (cases t)
    case Nil
    with r show ?thesis by (auto simp: drop_end_dollar_def)
  next
    case (Cons d u)
    with r show ?thesis by (auto simp: drop_end_dollar_def)
  qed
qed

lemma set_sub_dollar_anchors: "set (sub_dollar_anchors s) \<subseteq> set s"
  using set_drop_end_dollar by (cases s) (auto simp: sub_dollar_anchors_def)

lemma clean_latex_no_space: "\<forall>c \<in> set (clean_latex s). \<not> is_space c"
  using set_sub_dollar_anchors [of "remove_ws s"] remove_ws_no_space [of s]
  by (auto simp: clean_latex_def)

lemma clean_latex_on_clean: "clean_latex (clean_latex s) = sub_dollar_anchors (clean_latex s)"
  using remove_ws_id [OF clean_latex_no_space] by (simp add: clean_latex_def)

lemma drop_end_dollar_id:
  assumes "r \<noteq> [] \<Longrightarrow> last r \<noteq> dollar" and "newline \<notin> set r"
  shows "drop_end_dollar r = r"
proof (cases "rev r")
  case Nil
  then show ?thesis by (simp add: drop_end_dollar_def)
next
  case (Cons c t)
  then have r: "r = rev t @ [c]" by (metis rev.simps(2) rev_rev_ident)
  with assms have "c \<noteq> dollar" "c \<noteq> newline" by auto
  with Cons show ?thesis by (simp add: drop_end_dollar_def)
qed

lemma length_drop_end_dollar:
  "length (drop_end_dollar r) = length r \<Longrightarrow> drop_end_dollar r = r"
proof (cases "rev r")
  case Nil
  then show ?thesis by (simp add: drop_end_dollar_def)
next
  case (Cons c t)
  assume len: "length (drop_end_dollar r) = length r"
  from Cons have r: "r = rev t @ [c]" by (metis rev.simps(2) rev_rev_ident)
  show ?thesis
  proof (cases t)
    case Nil
    with r len show ?thesis by (auto simp: drop_end_dollar_def split: if_splits)
  next
    case (Cons d u)
    with r len show ?thesis by (auto simp: drop_end_dollar_def split: if_splits)
  qed
qed

lemma length_drop_end_dollar_le: "length (drop_end_dollar r) \<le> length r"
proof (cases "rev r")
  case Nil
  then show ?thesis by (simp add: drop_end_dollar_def)
next
  case (Cons c t)
  then have r: "r = rev t @ [c]" by (metis rev.simps(2) rev_rev_ident)
  show ?thesis
  proof (cases t)
    case Nil
    with r show ?thesis by (auto simp: drop_end_dollar_def)
  next
    case (Cons d u)
    with r show ?thesis by (auto simp: drop_end_dollar_def)
  qed
qed

lemma drop_end_dollar_last:
  assumes "r \<noteq> []" and "last r = dollar"
  shows "drop_end_dollar r = butlast r"
proof -
  from assms have "r = butlast r @ [dollar]"
    by (metis append_butlast_last_id)
  then have h: "rev r = dollar # rev (butlast r)"
    by (metis rev.simps(2) rev_rev_ident rev_swap)
  show ?thesis
    unfolding drop_end_dollar_def by (simp only: h list.case rev_rev_ident refl if_True)
qed

lemma sub_dollar_anchors_fixed:
  assumes "newline \<notin> set t"
  shows "sub_dollar_anchors t = t \<longleftrightarrow> (t = [] \<or> (hd t \<noteq> dollar \<and> last t \<noteq> dollar))"
proof (cases t)
  case Nil
  then show ?thesis by (simp add: sub_dollar_anchors_def)
next
  case (Cons c r)
  show ?thesis
  proof (cases "c = dollar")
    case True
    have "length (drop_end_dollar r) \<le> length r" by (rule length_drop_end_dollar_le)
    then have "drop_end_dollar r \<noteq> c # r" by (metis impossible_Cons)
    with Cons True show ?thesis by (simp add: sub_dollar_anchors_def)
  next
    case False
    show ?thesis
    proof (cases "r = []")
      case True
      with Cons False show ?thesis by (simp add: sub_dollar_anchors_def drop_end_dollar_def)
    next
      case rne: False
      from assms Cons have nl: "newline \<notin> set r" by simp
      show ?thesis
      proof (cases "last r = dollar")
        case True
        with rne have "drop_end_dollar r = butlast r" by (rule drop_end_dollar_last)
        moreover from rne have "butlast r \<noteq> r"
          by (metis append_butlast_last_id append_self_conv not_Cons_self2)
        ultimately show ?thesis
          using Cons False rne True by (simp add: sub_dollar_anchors_def)
      next
        case lf: False
        then have "drop_end_dollar r = r" using nl by (intro drop_end_dollar_id) auto
        with Cons False rne lf show ?thesis by (simp add: sub_dollar_anchors_def)
      qed
    qed
  qed
qed

text \<open>
  Claim C3 as stated: the cleaner is idempotent on every string. It is not: on
  \<open>$$x$$\<close> one call removes one dollar at each end and the next call removes the
  remaining pair.
\<close>

theorem clean_latex_not_idempotent:
  "clean_latex (clean_latex ''$$x$$'') \<noteq> clean_latex ''$$x$$''"
  by (simp add: clean_latex_def remove_ws_def is_space_def sub_dollar_anchors_def
      drop_end_dollar_def dollar_def newline_def)

text \<open>
  Claim C3, amended: cleaning a cleaned string changes nothing exactly when the cleaned
  string is empty or neither begins nor ends with a dollar; in particular the cleaner
  is idempotent on every input whose cleaned form has no dollar at either end.
\<close>

theorem clean_latex_idempotent_iff:
  "clean_latex (clean_latex s) = clean_latex s \<longleftrightarrow>
     (clean_latex s = [] \<or> (hd (clean_latex s) \<noteq> dollar \<and> last (clean_latex s) \<noteq> dollar))"
proof -
  have "newline \<notin> set (clean_latex s)"
    using clean_latex_no_space [of s] is_space_newline by blast
  then have "sub_dollar_anchors (clean_latex s) = clean_latex s \<longleftrightarrow>
     (clean_latex s = [] \<or> (hd (clean_latex s) \<noteq> dollar \<and> last (clean_latex s) \<noteq> dollar))"
    by (rule sub_dollar_anchors_fixed)
  then show ?thesis
    by (simp only: clean_latex_on_clean)
qed

theorem clean_latex_idempotent_iff_witness:
  "clean_latex (clean_latex '' $ x + 1 $ '') = clean_latex '' $ x + 1 $ '' \<and>
   clean_latex '' $ x + 1 $ '' = ''x+1''"
proof -
  have c: "clean_latex '' $ x + 1 $ '' = ''x+1''"
    by (simp add: clean_latex_def remove_ws_def is_space_def sub_dollar_anchors_def
        drop_end_dollar_def dollar_def newline_def)
  have "hd (clean_latex '' $ x + 1 $ '') \<noteq> dollar \<and> last (clean_latex '' $ x + 1 $ '') \<noteq> dollar"
    by (simp add: c dollar_def)
  with clean_latex_idempotent_iff [of "'' $ x + 1 $ ''"] c show ?thesis by simp
qed

section \<open>Exceptions that the handlers catch\<close>

lemma except_false_escape: "except_false m = Inl e \<Longrightarrow> \<not> is_Exception e"
  by (auto simp: except_false_def split: sum.splits if_splits)

lemma latex_to_sympy_escape: "latex_to_sympy rt s = Inl e \<Longrightarrow> \<not> is_Exception e"
  by (auto simp: latex_to_sympy_def split: sum.splits if_splits)

lemma strategy_escape:
  "check_numeric_equivalence rt a b = Inl e \<Longrightarrow> \<not> is_Exception e"
  "check_symbolic_equivalence rt a b = Inl e \<Longrightarrow> \<not> is_Exception e"
  "check_algebraic_equivalence rt a b = Inl e \<Longrightarrow> \<not> is_Exception e"
  by (auto simp: check_numeric_equivalence_def check_symbolic_equivalence_def
      check_algebraic_equivalence_def dest: except_false_escape)

lemma bind_exn_Inl: "bind_exn m f = Inl e \<Longrightarrow> m = Inl e \<or> (\<exists>x. m = Inr x \<and> f x = Inl e)"
  by (auto simp: bind_exn_def split: sum.splits)

lemma are_equivalent_escape: "are_equivalent rt a b = Inl e \<Longrightarrow> \<not> is_Exception e"
  unfolding are_equivalent_def
  by (auto dest!: bind_exn_Inl split: if_splits) (blast dest: strategy_escape(2))+

lemma strategies_escape: "strategies rt a b = Inl e \<Longrightarrow> \<not> is_Exception e"
  unfolding strategies_def
  by (auto dest!: bind_exn_Inl dest: strategy_escape are_equivalent_escape)

lemma check_short_answer_escape: "check_short_answer rt req = Inl e \<Longrightarrow> \<not> is_Exception e"
  unfolding check_short_answer_def Let_def
  by (auto dest!: bind_exn_Inl dest: strategies_escape split: option.splits)

lemma check_answer_short:
  assumes "question_type req \<noteq> Some MULTIPLE_CHOICE"
  shows "check_answer rt req = check_short_answer rt req"
proof (cases "check_short_answer rt req")
  case (Inl e)
  then have "\<not> is_Exception e" by (rule check_short_answer_escape)
  with Inl assms show ?thesis by (simp add: check_answer_def check_answer_body_def)
next
  case (Inr r)
  with assms show ?thesis by (simp add: check_answer_def check_answer_body_def)
qed

lemma check_answer_multiple:
  "question_type req = Some MULTIPLE_CHOICE \<Longrightarrow>
   check_answer rt req =
     (case check_multiple_choice rt req of
        Inr r \<Rightarrow> Inr r
      | Inl e \<Rightarrow>
          if is_Exception e then Inr (response False 0 ''Validation error'' (Some (exn_text e)))
          else Inl e)"
  by (simp add: check_answer_def check_answer_body_def)

lemma strategies_absent:
  assumes "latex_to_sympy rt a = Inr pa" and "latex_to_sympy rt b = Inr pb"
    and "pa = None \<or> pb = None"
  shows "check_numeric_equivalence rt a b = Inr False"
    "check_symbolic_equivalence rt a b = Inr False"
    "check_algebraic_equivalence rt a b = Inr False"
  using assms
  by (auto simp: check_numeric_equivalence_def check_symbolic_equivalence_def
      check_algebraic_equivalence_def except_false_def bind_exn_def split: option.splits)

section \<open>Evaluation on the sample runtime\<close>

lemma sample_runtime_fields [simp]:
  "py_int sample_runtime = dec_int"
  "sympify sample_runtime = sample_sympify"
  "evalf_float sample_runtime = sample_evalf"
  "cas_simplify sample_runtime = Inr"
  "cas_expand sample_runtime = Inr"
  "cas_factor sample_runtime = Inr"
  "cas_sub sample_runtime = sample_sub"
  "cas_equals sample_runtime = (\<lambda>a b. Inr (a = b))"
  "cas_is_zero sample_runtime = (\<lambda>a. Inr (a = Number 0))"
  by (simp_all add: sample_runtime_def)

lemma failing_runtime_py_int [simp]:
  "py_int failing_runtime = (\<lambda>s. Inl (OtherException ''out of memory''))"
  by (simp add: failing_runtime_def)

lemma short_request_fields [simp]:
  "question_type (short_request u c) = Some SHORT_ANSWER"
  "user_answer (short_request u c) = u"
  "correct_answer (short_request u c) = c"
  by (simp_all add: short_request_def)

lemma choice_request_fields [simp]:
  "question_type (choice_request sel c) = Some MULTIPLE_CHOICE"
  "selected_option (choice_request sel c) = sel"
  "correct_answer (choice_request sel c) = c"
  by (simp_all add: choice_request_def)

lemma dec_int_2: "dec_int ''2'' = Inr 2"
  by (simp add: dec_int_def is_digit_def digits_value_def)

lemma dec_int_two: "dec_int ''two'' = Inl (ValueError ''invalid literal for int() with base 10'')"
  by (simp add: dec_int_def is_digit_def digits_value_def)

lemma str_int_3: "str_int 3 = ''3''"
  by code_simp

lemma normalized_examples:
  "normalized '' 12'' = ''12''"
  "normalized ''$12$'' = ''12''"
  "normalized ''12'' = ''12''"
  "normalized ''12.0'' = ''12.0''"
  "normalized ''x'' = ''x''"
  "normalized ''x+x'' = ''x+x''"
  "normalized ''2*x'' = ''2*x''"
  "normalized ''y=2*x'' = ''y=2*x''"
  "normalized ''2x'' = ''2x''"
  "normalized ''y=2x'' = ''y=2x''"
  "normalized ''__import__('sys').exit()'' = ''__import__('sys').exit()''"
  by code_simp+

lemma translate_examples:
  "latex_translate ''12'' = ''12''"
  "latex_translate ''12.0'' = ''12.0''"
  "latex_translate ''0.5'' = ''0.5''"
  "latex_translate ''0.5000000001'' = ''0.5000000001''"
  "latex_translate ''0.500000002'' = ''0.500000002''"
  "latex_translate ''x'' = ''x''"
  "latex_translate ''x+x'' = ''x+x''"
  "latex_translate ''2*x'' = ''2*x''"
  "latex_translate ''y=2*x'' = ''y=2*x''"
  "latex_translate ''2x'' = ''2x''"
  "latex_translate ''y=2x'' = ''y=2x''"
  "latex_translate ''x>=1'' = ''x>=1''"
  "latex_translate ''y=x>=1'' = ''y=x>=1''"
  "latex_translate ''__import__('sys').exit()'' = ''__import__('sys').exit()''"
  by code_simp+

lemma sympify_examples:
  "sample_sympify ''12'' = Inr (Some (Number 12))"
  "sample_sympify ''12.0'' = Inr (Some (Number 12))"
  "sample_sympify ''0.5'' = Inr (Some (Number (5 / 10)))"
  "sample_sympify ''0.5000000001'' = Inr (Some (Number (5000000001 / 10000000000)))"
  "sample_sympify ''0.500000002'' = Inr (Some (Number (500000002 / 1000000000)))"
  "sample_sympify ''x'' = Inr (Some (Monomial 1 ''x''))"
  "sample_sympify ''x+x'' = Inr (Some (Monomial 2 ''x''))"
  "sample_sympify ''2*x'' = Inr (Some (Monomial 2 ''x''))"
  "sample_sympify ''x>=1'' = Inr (Some (Relation ''x >= 1''))"
  "sample_sympify ''y=2*x'' = Inl (OtherException ''SympifyError'')"
  "sample_sympify ''2x'' = Inl (OtherException ''SympifyError'')"
  "sample_sympify ''y=2x'' = Inl (OtherException ''SympifyError'')"
  "sample_sympify ''y=x>=1'' = Inl (OtherException ''SympifyError'')"
  "sample_sympify ''__import__('sys').exit()'' = Inl (ExitException [])"
  by (simp_all add: sample_sympify_def exit_call_def)

lemma parse_examples:
  "latex_to_sympy sample_runtime ''12'' = Inr (Some (Number 12))"
  "latex_to_sympy sample_runtime ''12.0'' = Inr (Some (Number 12))"
  "latex_to_sympy sample_runtime ''0.5'' = Inr (Some (Number (5 / 10)))"
  "latex_to_sympy sample_runtime ''0.5000000001'' = Inr (Some (Number (5000000001 / 10000000000)))"
  "latex_to_sympy sample_runtime ''0.500000002'' = Inr (Some (Number (500000002 / 1000000000)))"
  "latex_to_sympy sample_runtime ''x'' = Inr (Some (Monomial 1 ''x''))"
  "latex_to_sympy sample_runtime ''x+x'' = Inr (Some (Monomial 2 ''x''))"
  "latex_to_sympy sample_runtime ''2*x'' = Inr (Some (Monomial 2 ''x''))"
  "latex_to_sympy sample_runtime ''x>=1'' = Inr (Some (Relation ''x >= 1''))"
  "latex_to_sympy sample_runtime ''y=2*x'' = Inr None"
  "latex_to_sympy sample_runtime ''2x'' = Inr None"
  "latex_to_sympy sample_runtime ''y=2x'' = Inr None"
  "latex_to_sympy sample_runtime ''y=x>=1'' = Inr None"
  "latex_to_sympy sample_runtime ''__import__('sys').exit()'' = Inl (ExitException [])"
  by (simp_all add: latex_to_sympy_def translate_examples sympify_examples)

lemmas strategy_defs = check_numeric_equivalence_def check_symbolic_equivalence_def
  check_algebraic_equivalence_def are_equivalent_def except_false_def bind_exn_def
  float_1e_9_def

lemma strategy_examples:
  "check_numeric_equivalence sample_runtime ''12'' ''12'' = Inr True"
  "check_numeric_equivalence sample_runtime ''12.0'' ''12'' = Inr True"
  "check_symbolic_equivalence sample_runtime ''12'' ''12'' = Inr True"
  "check_algebraic_equivalence sample_runtime ''12'' ''12'' = Inr True"
  "are_equivalent sample_runtime ''12'' ''12'' = Inr True"
  "check_symbolic_equivalence sample_runtime ''12.0'' ''12'' = Inr True"
  "check_algebraic_equivalence sample_runtime ''12.0'' ''12'' = Inr True"
  "are_equivalent sample_runtime ''12.0'' ''12'' = Inr True"
  "check_numeric_equivalence sample_runtime ''0.5'' ''0.5000000001'' = Inr True"
  "check_numeric_equivalence sample_runtime ''0.5'' ''0.500000002'' = Inr False"
  "check_numeric_equivalence sample_runtime ''x'' ''12'' = Inr False"
  "check_numeric_equivalence sample_runtime ''2x'' ''12'' = Inr False"
  "check_symbolic_equivalence sample_runtime ''x'' ''12'' = Inr False"
  "check_algebraic_equivalence sample_runtime ''x'' ''12'' = Inr False"
  "are_equivalent sample_runtime ''x'' ''12'' = Inr False"
  "check_numeric_equivalence sample_runtime ''x+x'' ''2*x'' = Inr False"
  "check_symbolic_equivalence sample_runtime ''x+x'' ''2*x'' = Inr True"
  "check_algebraic_equivalence sample_runtime ''x+x'' ''2*x'' = Inr True"
  "are_equivalent sample_runtime ''x+x'' ''2*x'' = Inr True"
  "check_numeric_equivalence sample_runtime ''2x'' ''y=2x'' = Inr False"
  "check_symbolic_equivalence sample_runtime ''2x'' ''y=2x'' = Inr False"
  "check_algebraic_equivalence sample_runtime ''2x'' ''y=2x'' = Inr False"
  "check_symbolic_equivalence sample_runtime ''2x'' ''2x'' = Inr False"
  "check_symbolic_equivalence sample_runtime ''x>=1'' ''y=x>=1'' = Inr False"
  "check_symbolic_equivalence sample_runtime ''x>=1'' ''x>=1'' = Inr True"
  "check_numeric_equivalence sample_runtime ''__import__('sys').exit()'' ''x'' = Inl (ExitException [])"
  by (simp_all add: strategy_defs parse_examples has_eq_def)

section \<open>Properties of the request handler\<close>

text \<open>
  Claim C1: on a short answer the strategies are evaluated in the order numeric,
  symbolic, algebraic, right-hand side, and the list is searched in the order exact
  text, numeric, symbolic, algebraic, right-hand side, with weights 1.0, 0.9, 0.8, 0.7
  and 0.95. The first one that matches gives the verdict: correct, with the weight of that
  strategy and the explanation naming it. If none matches the verdict is incorrect with
  confidence 0 and the explanation quoting both normalised answers. A strategy that lets
  an exception through ends the call with that exception.
\<close>

theorem short_answer_first_match:
  assumes "question_type req \<noteq> Some MULTIPLE_CHOICE"
  shows "check_answer rt req =
     bind_exn (check_numeric_equivalence rt (normalized (user_answer req))
                 (normalized (correct_answer req))) (\<lambda>numeric.
     bind_exn (check_symbolic_equivalence rt (normalized (user_answer req))
                 (normalized (correct_answer req))) (\<lambda>symbolic.
     bind_exn (check_algebraic_equivalence rt (normalized (user_answer req))
                 (normalized (correct_answer req))) (\<lambda>algebraic.
     bind_exn (are_equivalent rt (normalized (user_answer req))
                 (normalized (correct_answer req))) (\<lambda>rhs_equiv.
       Inr (if normalized (user_answer req) = normalized (correct_answer req)
            then response True 1 ''Answer correct via latex_exact comparison'' None
            else if numeric
            then response True (9 / 10) ''Answer correct via numeric comparison'' None
            else if symbolic
            then response True (8 / 10) ''Answer correct via symbolic comparison'' None
            else if algebraic
            then response True (7 / 10) ''Answer correct via algebraic comparison'' None
            else if rhs_equiv
            then response True (95 / 100) ''Answer correct via rhs_equiv comparison'' None
            else response False 0
                   (''Answer is incorrect. Expected '' @ normalized (correct_answer req)
                    @ '', got '' @ normalized (user_answer req)) None)))))"
  unfolding check_answer_short [OF assms]
  by (simp add: check_short_answer_def strategies_def Let_def bind_exn_def
      split: sum.splits)

theorem short_answer_first_match_witness:
  "check_answer sample_runtime (short_request '' 12'' ''$12$'') =
     Inr (response True 1 ''Answer correct via latex_exact comparison'' None)
   \<and> check_answer sample_runtime (short_request ''12.0'' ''12'') =
     Inr (response True (9 / 10) ''Answer correct via numeric comparison'' None)
   \<and> check_answer sample_runtime (short_request ''x+x'' ''2*x'') =
     Inr (response True (8 / 10) ''Answer correct via symbolic comparison'' None)
   \<and> are_equivalent sample_runtime ''x+x'' ''2*x'' = Inr True
   \<and> check_answer sample_runtime (short_request ''x'' ''$12$'') =
     Inr (response False 0 ''Answer is incorrect. Expected 12, got x'' None)"
  using short_answer_first_match [of "short_request '' 12'' ''$12$''" sample_runtime]
    short_answer_first_match [of "short_request ''12.0'' ''12''" sample_runtime]
    short_answer_first_match [of "short_request ''x+x'' ''2*x''" sample_runtime]
    short_answer_first_match [of "short_request ''x'' ''$12$''" sample_runtime]
  by (simp add: normalized_examples strategy_examples bind_exn_def)

text \<open>
  Claim C5: on a multiple-choice question with a selected option, a reference that
  parses as the integer \<open>k\<close> gives a correct verdict with confidence 1 exactly when the
  selection is \<open>k\<close>, and otherwise an incorrect verdict with confidence 0 whose
  explanation shows \<open>k + 1\<close>. A reference that does not parse gives an incorrect verdict
  with confidence 0, a non-empty explanation and an error message.
\<close>

theorem multiple_choice_verdict:
  assumes "question_type req = Some MULTIPLE_CHOICE" and "selected_option req = Some sel"
  shows "(py_int rt (correct_answer req) = Inr k \<longrightarrow>
            check_answer rt req =
              Inr (if sel = k then response True 1 ''Correct answer selected'' None
                   else response False 0
                          (''Incorrect. Correct option was '' @ str_int (k + 1) @ ''.'') None))
       \<and> (py_int rt (correct_answer req) = Inl (ValueError m) \<longrightarrow>
            check_answer rt req =
              Inr (response False 0 ''Invalid correct_answer format''
                     (Some ''Invalid correct_answer format'')))
       \<and> (py_int rt (correct_answer req) = Inl (OtherException m) \<longrightarrow>
            check_answer rt req = Inr (response False 0 ''Validation error'' (Some m)))
       \<and> (py_int rt (correct_answer req) = Inl e \<and> is_Exception e \<longrightarrow>
            (\<exists>v. check_answer rt req = Inr v \<and> \<not> is_correct v \<and> confidence v = 0
                  \<and> explanation v \<noteq> [] \<and> error_message v \<noteq> None))"
  using assms
  by (cases e) (simp_all add: check_answer_multiple check_multiple_choice_def response_def)

theorem multiple_choice_verdict_witness:
  "check_answer sample_runtime (choice_request (Some 2) ''2'') =
     Inr (response True 1 ''Correct answer selected'' None)
   \<and> check_answer sample_runtime (choice_request (Some 1) ''2'') =
     Inr (response False 0 ''Incorrect. Correct option was 3.'' None)
   \<and> check_answer sample_runtime (choice_request (Some 1) ''two'') =
     Inr (response False 0 ''Invalid correct_answer format''
            (Some ''Invalid correct_answer format''))
   \<and> check_answer failing_runtime (choice_request (Some 1) ''2'') =
     Inr (response False 0 ''Validation error'' (Some ''out of memory''))"
  using multiple_choice_verdict [of "choice_request (Some 2) ''2''" 2 sample_runtime 2]
    multiple_choice_verdict [of "choice_request (Some 1) ''2''" 1 sample_runtime 2]
    multiple_choice_verdict [of "choice_request (Some 1) ''two''" 1 sample_runtime 0
      "''invalid literal for int() with base 10''" "OtherException []"]
    multiple_choice_verdict [of "choice_request (Some 1) ''2''" 1 failing_runtime 0
      "''out of memory''" "OtherException []"]
  by (simp add: dec_int_2 dec_int_two str_int_3)




text \<open>
  Claim C7 as stated: no exception leaves the call. One does: every handler is
  \<open>except Exception\<close>, and \<open>sympify\<close> evaluates the string it is given, so an answer
  that calls \<open>sys.exit\<close> raises \<open>SystemExit\<close>, which no handler catches.
\<close>

theorem exit_escapes:
  "check_answer sample_runtime (short_request ''__import__('sys').exit()'' ''x'') =
     Inl (ExitException [])"
  by (simp add: check_answer_short check_short_answer_def strategies_def normalized_examples
      strategy_examples bind_exn_def)

text \<open>
  Claim C7, amended: no \<open>Exception\<close> leaves the call. An \<open>Exception\<close> that leaves
  the body becomes the response \<open>Validation error\<close> carrying the text of the
  exception; an \<open>Exception\<close> of the parser gives an absent parsed form, and with an
  absent form on either side the numeric, symbolic and algebraic strategies do not match;
  none of the strategies raises an \<open>Exception\<close>. An exception outside \<open>Exception\<close>
  passes through the parser and through the call.
\<close>

theorem exceptions_become_verdicts:
  "(check_answer rt req = Inl e \<longrightarrow> \<not> is_Exception e)
   \<and> (check_answer_body rt req = Inr r \<longrightarrow> check_answer rt req = Inr r)
   \<and> (check_answer_body rt req = Inl e \<and> is_Exception e \<longrightarrow>
        check_answer rt req = Inr (response False 0 ''Validation error'' (Some (exn_text e))))
   \<and> (check_answer_body rt req = Inl e \<and> \<not> is_Exception e \<longrightarrow> check_answer rt req = Inl e)
   \<and> (sympify rt (latex_translate s) = Inl e \<and> is_Exception e \<longrightarrow>
        latex_to_sympy rt s = Inr None)
   \<and> (sympify rt (latex_translate s) = Inl e \<and> \<not> is_Exception e \<longrightarrow>
        latex_to_sympy rt s = Inl e)
   \<and> (latex_to_sympy rt a = Inr pa \<and> latex_to_sympy rt b = Inr pb \<and> (pa = None \<or> pb = None) \<longrightarrow>
        check_numeric_equivalence rt a b = Inr False
        \<and> check_symbolic_equivalence rt a b = Inr False
        \<and> check_algebraic_equivalence rt a b = Inr False)
   \<and> (check_numeric_equivalence rt a b = Inl e \<or> check_symbolic_equivalence rt a b = Inl e
        \<or> check_algebraic_equivalence rt a b = Inl e \<or> are_equivalent rt a b = Inl e \<longrightarrow>
        \<not> is_Exception e)"
proof -
  have 1: "check_answer rt req = Inl e \<longrightarrow> \<not> is_Exception e"
    by (auto simp: check_answer_def split: sum.splits if_splits)
  have 2: "check_answer_body rt req = Inr r \<longrightarrow> check_answer rt req = Inr r"
    by (simp add: check_answer_def)
  have 3: "check_answer_body rt req = Inl e \<and> is_Exception e \<longrightarrow>
        check_answer rt req = Inr (response False 0 ''Validation error'' (Some (exn_text e)))"
    by (simp add: check_answer_def)
  have 4: "check_answer_body rt req = Inl e \<and> \<not> is_Exception e \<longrightarrow> check_answer rt req = Inl e"
    by (simp add: check_answer_def)
  have 5: "sympify rt (latex_translate s) = Inl e \<and> is_Exception e \<longrightarrow>
        latex_to_sympy rt s = Inr None"
    by (simp add: latex_to_sympy_def)
  have 6: "sympify rt (latex_translate s) = Inl e \<and> \<not> is_Exception e \<longrightarrow>
        latex_to_sympy rt s = Inl e"
    by (simp add: latex_to_sympy_def)
  have 7: "latex_to_sympy rt a = Inr pa \<and> latex_to_sympy rt b = Inr pb \<and> (pa = None \<or> pb = None) \<longrightarrow>
        check_numeric_equivalence rt a b = Inr False
        \<and> check_symbolic_equivalence rt a b = Inr False
        \<and> check_algebraic_equivalence rt a b = Inr False"
    using strategies_absent [of rt a pa b pb] by blast
  have 8: "check_numeric_equivalence rt a b = Inl e \<or> check_symbolic_equivalence rt a b = Inl e
        \<or> check_algebraic_equivalence rt a b = Inl e \<or> are_equivalent rt a b = Inl e \<longrightarrow>
        \<not> is_Exception e"
    using strategy_escape [of rt a b e] are_equivalent_escape [of rt a b e] by blast
  from 1 2 3 4 5 6 7 8 show ?thesis by blast
qed

theorem exceptions_become_verdicts_witness:
  "check_answer failing_runtime (choice_request (Some 1) ''2'') =
     Inr (response False 0 ''Validation error'' (Some ''out of memory''))
   \<and> check_answer sample_runtime (choice_request (Some 2) ''2'') =
     Inr (response True 1 ''Correct answer selected'' None)
   \<and> latex_to_sympy sample_runtime ''y=2x'' = Inr None
   \<and> check_numeric_equivalence sample_runtime ''2x'' ''y=2x'' = Inr False
   \<and> check_symbolic_equivalence sample_runtime ''2x'' ''y=2x'' = Inr False
   \<and> check_algebraic_equivalence sample_runtime ''2x'' ''y=2x'' = Inr False
   \<and> latex_to_sympy sample_runtime ''__import__('sys').exit()'' = Inl (ExitException [])"
proof -
  have a: "check_answer_body failing_runtime (choice_request (Some 1) ''2'') =
      Inl (OtherException ''out of memory'')"
    by (simp add: check_answer_body_def check_multiple_choice_def)
  have b: "check_answer_body sample_runtime (choice_request (Some 2) ''2'') =
      Inr (response True 1 ''Correct answer selected'' None)"
    by (simp add: check_answer_body_def check_multiple_choice_def dec_int_2)
  have c: "sympify sample_runtime (latex_translate ''y=2x'') = Inl (OtherException ''SympifyError'')"
    by (simp add: translate_examples sympify_examples)
  have d: "sympify sample_runtime (latex_translate ''__import__('sys').exit()'') =
      Inl (ExitException [])"
    by (simp add: translate_examples sympify_examples)
  from a
    exceptions_become_verdicts [of failing_runtime "choice_request (Some 1) ''2''"
      "OtherException ''out of memory''"]
  have 1: "check_answer failing_runtime (choice_request (Some 1) ''2'') =
     Inr (response False 0 ''Validation error'' (Some ''out of memory''))" by simp
  from b
    exceptions_become_verdicts [of sample_runtime "choice_request (Some 2) ''2''" _
      "response True 1 ''Correct answer selected'' None"]
  have 2: "check_answer sample_runtime (choice_request (Some 2) ''2'') =
     Inr (response True 1 ''Correct answer selected'' None)" by simp
  from c
    exceptions_become_verdicts [of sample_runtime _ "OtherException ''SympifyError''" _
      "''y=2x''" "''2x''" None "''y=2x''" None]
  have 3: "latex_to_sympy sample_runtime ''y=2x'' = Inr None
   \<and> check_numeric_equivalence sample_runtime ''2x'' ''y=2x'' = Inr False
   \<and> check_symbolic_equivalence sample_runtime ''2x'' ''y=2x'' = Inr False
   \<and> check_algebraic_equivalence sample_runtime ''2x'' ''y=2x'' = Inr False"
    by (simp add: parse_examples)
  from d
    exceptions_become_verdicts [of sample_runtime _ "ExitException []" _
      "''__import__('sys').exit()''"]
  have 4: "latex_to_sympy sample_runtime ''__import__('sys').exit()'' = Inl (ExitException [])"
    by simp
  from 1 2 3 4 show ?thesis by simp
qed

lemma short_answer_confidence:
  "check_short_answer rt req = Inr v \<Longrightarrow>
   confidence v \<in> {0, 7 / 10, 8 / 10, 9 / 10, 95 / 100, 1}
   \<and> (\<not> is_correct v \<longrightarrow> confidence v = 0)
   \<and> (is_correct v \<longrightarrow> 7 / 10 \<le> confidence v)"
  by (auto simp: check_short_answer_def strategies_def Let_def bind_exn_def response_def
      split: sum.splits if_splits)

lemma multiple_choice_confidence:
  "check_multiple_choice rt req = Inr r \<Longrightarrow>
   confidence r \<in> {0, 1} \<and> (\<not> is_correct r \<longrightarrow> confidence r = 0) \<and> (is_correct r \<longrightarrow> confidence r = 1)"
  by (auto simp: check_multiple_choice_def response_def Let_def
      split: option.splits sum.splits exn.splits if_splits)

text \<open>
  Claim C9: every response of the handler has a confidence among 0, 0.7, 0.8, 0.9, 0.95
  and 1; an incorrect verdict has confidence 0 and a correct one at least 0.7.
\<close>

theorem confidence_values:
  "check_answer rt req = Inr v \<longrightarrow>
   confidence v \<in> {0, 7 / 10, 8 / 10, 9 / 10, 95 / 100, 1}
   \<and> (\<not> is_correct v \<longrightarrow> confidence v = 0)
   \<and> (is_correct v \<longrightarrow> 7 / 10 \<le> confidence v)"
proof (cases "question_type req = Some MULTIPLE_CHOICE")
  case False
  then have "check_answer rt req = check_short_answer rt req" by (rule check_answer_short)
  with short_answer_confidence [of rt req v] show ?thesis by simp
next
  case True
  show ?thesis
  proof (cases "check_multiple_choice rt req")
    case (Inl e)
    with True show ?thesis by (auto simp: check_answer_multiple response_def split: if_splits)
  next
    case (Inr r)
    with True multiple_choice_confidence [OF Inr] show ?thesis
      by (auto simp: check_answer_multiple)
  qed
qed

theorem confidence_values_witness:
  "check_answer sample_runtime (short_request ''12.0'' ''12'') =
     Inr (response True (9 / 10) ''Answer correct via numeric comparison'' None)
   \<and> confidence (response True (9 / 10) ''Answer correct via numeric comparison'' None) = 9 / 10
   \<and> check_answer sample_runtime (choice_request (Some 1) ''2'') =
     Inr (response False 0 ''Incorrect. Correct option was 3.'' None)
   \<and> confidence (response False 0 ''Incorrect. Correct option was 3.'' None) = 0"
proof -
  have a: "check_answer sample_runtime (short_request ''12.0'' ''12'') =
     Inr (response True (9 / 10) ''Answer correct via numeric comparison'' None)"
    by (simp add: check_answer_short check_short_answer_def strategies_def
        normalized_examples strategy_examples bind_exn_def)
  have b: "check_answer sample_runtime (choice_request (Some 1) ''2'') =
     Inr (response False 0 ''Incorrect. Correct option was 3.'' None)"
    by (simp add: check_answer_multiple check_multiple_choice_def dec_int_2 str_int_3)
  from a b
    confidence_values [of sample_runtime "short_request ''12.0'' ''12''"
      "response True (9 / 10) ''Answer correct via numeric comparison'' None"]
    confidence_values [of sample_runtime "choice_request (Some 1) ''2''"
      "response False 0 ''Incorrect. Correct option was 3.'' None"]
  show ?thesis by (simp add: response_def)
qed

text \<open>
  Claim C10: a multiple-choice request without a selected option is answered with an
  incorrect verdict, confidence 0, the explanation \<open>No option selected\<close> and no error
  message, whatever the reference answer is.
\<close>

theorem no_option_selected:
  assumes "question_type req = Some MULTIPLE_CHOICE" and "selected_option req = None"
  shows "check_answer rt req = Inr (response False 0 ''No option selected'' None)"
  using assms by (simp add: check_answer_multiple check_multiple_choice_def)

theorem no_option_selected_witness:
  "check_answer sample_runtime (choice_request None ''two'') =
     Inr (response False 0 ''No option selected'' None)"
  using no_option_selected [of "choice_request None ''two''" sample_runtime]
  by simp

section \<open>Properties of the right-hand-side strategy\<close>

lemma trim_right_Cons:
  "\<not> P x \<or> (\<exists>y \<in> set xs. \<not> P y) \<Longrightarrow>
   rev (dropWhile P (rev (x # xs))) = x # rev (dropWhile P (rev xs))"
  by (cases "\<exists>y \<in> set xs. \<not> P y") (auto simp: dropWhile_append)

lemma trim_right_all: "\<forall>y \<in> set xs. P y \<Longrightarrow> rev (dropWhile P (rev xs)) = []"
  by simp

lemma trim_commute:
  "dropWhile P (rev (dropWhile P (rev u))) = rev (dropWhile P (rev (dropWhile P u)))"
proof (induction u)
  case Nil
  then show ?case by simp
next
  case (Cons x xs)
  show ?case
  proof (cases "P x")
    case False
    then have "rev (dropWhile P (rev (x # xs))) = x # rev (dropWhile P (rev xs))"
      by (intro trim_right_Cons) simp
    with False show ?thesis by simp
  next
    case True
    show ?thesis
    proof (cases "\<exists>y \<in> set xs. \<not> P y")
      case ex: True
      then have "rev (dropWhile P (rev (x # xs))) = x # rev (dropWhile P (rev xs))"
        by (intro trim_right_Cons) simp
      with True Cons.IH show ?thesis by simp
    next
      case all: False
      then have a: "\<forall>y \<in> set (x # xs). P y" using True by simp
      have h1: "rev (dropWhile P (rev (x # xs))) = []" using a by (intro trim_right_all)
      have h2: "dropWhile P (x # xs) = []" using a by simp
      show ?thesis unfolding h1 h2 by simp
    qed
  qed
qed

lemma strip_ws_idem: "strip_ws (strip_ws s) = strip_ws s"
proof -
  have "strip_ws (strip_ws s) =
      rev (dropWhile is_space (rev (rev (dropWhile is_space (rev (dropWhile is_space (dropWhile is_space s)))))))"
    unfolding strip_ws_def by (simp only: trim_commute)
  then show ?thesis by (simp add: strip_ws_def)
qed

lemma latex_translate_strip: "latex_translate (strip_ws s) = latex_translate s"
  by (simp add: latex_translate_def strip_ws_idem)

lemma latex_to_sympy_strip: "latex_to_sympy rt (strip_ws s) = latex_to_sympy rt s"
  by (simp add: latex_to_sympy_def latex_translate_strip)

lemma check_symbolic_strip:
  "check_symbolic_equivalence rt a (strip_ws b) = check_symbolic_equivalence rt a b"
  "check_symbolic_equivalence rt (strip_ws a) b = check_symbolic_equivalence rt a b"
  by (simp_all add: check_symbolic_equivalence_def latex_to_sympy_strip)

lemma are_equivalent_rule:
  "are_equivalent rt a b =
     bind_exn (check_symbolic_equivalence rt a b) (\<lambda>direct.
       if direct then Inr True
       else if has_eq b \<and> \<not> has_eq a then check_symbolic_equivalence rt a (after_first_eq b)
       else if has_eq a \<and> \<not> has_eq b then check_symbolic_equivalence rt (after_first_eq a) b
       else Inr False)"
proof -
  have "bind_exn m (\<lambda>x. if x then Inr True else Inr False) = m" for m :: "exn + bool"
    by (cases m) (auto simp: bind_exn_def)
  moreover have "bind_exn (Inr False) f = f False" for f :: "bool \<Rightarrow> exn + bool"
    by (simp add: bind_exn_def)
  moreover have "bind_exn m (\<lambda>x. if x then Inr True else Inr x) = m" for m :: "exn + bool"
    by (cases m) (auto simp: bind_exn_def)
  ultimately show ?thesis
    by (auto simp: are_equivalent_def check_symbolic_strip bind_exn_def split: sum.splits)
qed

text \<open>
  Claim C2 as stated: when the direct comparison fails and the reference contains an
  equals sign, the comparison is retried on the right-hand side of the reference, and the
  candidate \<open>2x\<close> against the reference \<open>y=2x\<close> is correct with confidence 0.95.
  Neither holds. The retry is guarded by \<open>"=" not in user_expr\<close>, so it is skipped for
  the candidate \<open>x>=1\<close> against \<open>y=x>=1\<close>; and SymPy does not parse \<open>2x\<close>, so
  that candidate is incorrect against \<open>y=2x\<close>.
\<close>

theorem rhs_retry_skipped:
  "check_symbolic_equivalence sample_runtime ''x>=1'' ''y=x>=1'' = Inr False
   \<and> has_eq ''y=x>=1''
   \<and> check_symbolic_equivalence sample_runtime ''x>=1'' (after_first_eq ''y=x>=1'') = Inr True
   \<and> are_equivalent sample_runtime ''x>=1'' ''y=x>=1'' = Inr False
   \<and> check_answer sample_runtime (short_request ''2x'' ''y=2x'') =
       Inr (response False 0 ''Answer is incorrect. Expected y=2x, got 2x'' None)"
proof -
  have r: "after_first_eq ''y=x>=1'' = ''x>=1''" "after_first_eq ''y=2x'' = ''2x''"
    by (simp_all add: after_first_eq_def)
  have g: "are_equivalent sample_runtime ''x>=1'' ''y=x>=1'' = Inr False"
    by (simp add: are_equivalent_rule strategy_examples has_eq_def bind_exn_def)
  have e: "are_equivalent sample_runtime ''2x'' ''y=2x'' = Inr False"
    by (simp add: are_equivalent_rule strategy_examples has_eq_def bind_exn_def r)
  have c: "check_answer sample_runtime (short_request ''2x'' ''y=2x'') =
       Inr (response False 0 ''Answer is incorrect. Expected y=2x, got 2x'' None)"
    by (simp add: check_answer_short check_short_answer_def strategies_def normalized_examples
        strategy_examples e bind_exn_def)
  from g c show ?thesis by (simp add: strategy_examples r has_eq_def)
qed

text \<open>
  Claim C2, amended: the strategy matches exactly when the direct symbolic comparison
  matches, or the reference contains an equals sign, the candidate does not, and the
  candidate matches the part of the reference after its first equals sign, or the same
  with the roles exchanged. Its weight is 0.95. With a parser that rejects \<open>2x\<close> and
  \<open>y=2x\<close> the candidate \<open>2x\<close> is incorrect against \<open>y=2x\<close>; the candidate
  \<open>2*x\<close>, which parses, simplifies and equals itself, is correct with confidence 0.95
  against \<open>y=2*x\<close>.
\<close>

theorem rhs_strategy:
  "are_equivalent rt a b =
     bind_exn (check_symbolic_equivalence rt a b) (\<lambda>direct.
       if direct then Inr True
       else if has_eq b \<and> \<not> has_eq a then check_symbolic_equivalence rt a (after_first_eq b)
       else if has_eq a \<and> \<not> has_eq b then check_symbolic_equivalence rt (after_first_eq a) b
       else Inr False)
   \<and> (strategies rt a b = Inr entries \<and> are_equivalent rt a b = Inr matched \<longrightarrow>
        entries ! 4 = (''rhs_equiv'', matched, 95 / 100))
   \<and> (sympify rt ''2x'' = Inl e1 \<and> is_Exception e1
        \<and> sympify rt ''y=2x'' = Inl e2 \<and> is_Exception e2 \<longrightarrow>
      check_answer rt (short_request ''2x'' ''y=2x'') =
        Inr (response False 0 ''Answer is incorrect. Expected y=2x, got 2x'' None))
   \<and> (sympify rt ''2*x'' = Inr (Some p) \<and> cas_simplify rt p = Inr t
        \<and> cas_equals rt t t = Inr True
        \<and> sympify rt ''y=2*x'' = Inl e2 \<and> is_Exception e2 \<longrightarrow>
      check_answer rt (short_request ''2*x'' ''y=2*x'') =
        Inr (response True (95 / 100) ''Answer correct via rhs_equiv comparison'' None))"
proof -
  have 2: "entries ! 4 = (''rhs_equiv'', matched, 95 / 100)"
    if "strategies rt a b = Inr entries" "are_equivalent rt a b = Inr matched"
    using that by (auto simp: strategies_def bind_exn_def split: sum.splits)
  have 3: "check_answer rt (short_request ''2x'' ''y=2x'') =
        Inr (response False 0 ''Answer is incorrect. Expected y=2x, got 2x'' None)"
    if h: "sympify rt ''2x'' = Inl e1" "is_Exception e1"
      "sympify rt ''y=2x'' = Inl e2" "is_Exception e2"
  proof -
    from h have p: "latex_to_sympy rt ''2x'' = Inr None" "latex_to_sympy rt ''y=2x'' = Inr None"
      by (simp_all add: latex_to_sympy_def translate_examples)
    have s: "check_numeric_equivalence rt ''2x'' ''y=2x'' = Inr False"
      "check_symbolic_equivalence rt ''2x'' ''y=2x'' = Inr False"
      "check_algebraic_equivalence rt ''2x'' ''y=2x'' = Inr False"
      "check_symbolic_equivalence rt ''2x'' ''2x'' = Inr False"
      using p by (simp_all add: strategies_absent)
    have "are_equivalent rt ''2x'' ''y=2x'' = Inr False"
      by (simp add: are_equivalent_rule s has_eq_def after_first_eq_def bind_exn_def)
    with s show ?thesis
      by (simp add: check_answer_short check_short_answer_def strategies_def
          normalized_examples bind_exn_def)
  qed
  have 4: "check_answer rt (short_request ''2*x'' ''y=2*x'') =
        Inr (response True (95 / 100) ''Answer correct via rhs_equiv comparison'' None)"
    if h: "sympify rt ''2*x'' = Inr (Some p)" "cas_simplify rt p = Inr t"
      "cas_equals rt t t = Inr True" "sympify rt ''y=2*x'' = Inl e2" "is_Exception e2"
  proof -
    from h have p: "latex_to_sympy rt ''2*x'' = Inr (Some p)"
      "latex_to_sympy rt ''y=2*x'' = Inr None"
      by (simp_all add: latex_to_sympy_def translate_examples)
    have s: "check_numeric_equivalence rt ''2*x'' ''y=2*x'' = Inr False"
      "check_symbolic_equivalence rt ''2*x'' ''y=2*x'' = Inr False"
      "check_algebraic_equivalence rt ''2*x'' ''y=2*x'' = Inr False"
      using p by (simp_all add: strategies_absent)
    have d: "check_symbolic_equivalence rt ''2*x'' ''2*x'' = Inr True"
      using p h by (simp add: check_symbolic_equivalence_def except_false_def bind_exn_def)
    have "are_equivalent rt ''2*x'' ''y=2*x'' = Inr True"
      by (simp add: are_equivalent_rule s d has_eq_def after_first_eq_def bind_exn_def)
    with s show ?thesis
      by (simp add: check_answer_short check_short_answer_def strategies_def
          normalized_examples bind_exn_def)
  qed
  from are_equivalent_rule [of rt a b] 2 3 4 show ?thesis by blast
qed

theorem rhs_strategy_witness:
  "check_answer sample_runtime (short_request ''2x'' ''y=2x'') =
     Inr (response False 0 ''Answer is incorrect. Expected y=2x, got 2x'' None)
   \<and> check_answer sample_runtime (short_request ''2*x'' ''y=2*x'') =
     Inr (response True (95 / 100) ''Answer correct via rhs_equiv comparison'' None)
   \<and> are_equivalent sample_runtime ''2*x'' ''y=2*x'' = Inr True"
proof -
  have a: "are_equivalent sample_runtime ''2*x'' ''y=2*x'' = Inr True"
    using rhs_strategy [of sample_runtime "''2*x''" "''y=2*x''"]
    by (simp add: check_symbolic_equivalence_def except_false_def bind_exn_def parse_examples
        has_eq_def after_first_eq_def)
  from rhs_strategy [of sample_runtime _ _ _ _ "OtherException ''SympifyError''"
      "OtherException ''SympifyError''" "Monomial 2 ''x''" "Monomial 2 ''x''"] a
  show ?thesis by (simp add: sympify_examples)
qed

section \<open>Properties of the notation extractor\<close>

lemma content_upto_dollar_complete:
  "newline \<notin> set x \<Longrightarrow> content_upto_dollar (x @ dollar # y) \<noteq> None"
  by (induction x) (auto split: option.splits)

lemma content_upto_dollar_sound:
  "content_upto_dollar s = Some (g, r) \<Longrightarrow>
   s = g @ dollar # r \<and> newline \<notin> set g \<and> dollar \<notin> set g"
  by (induction s arbitrary: g r) (auto split: if_splits option.splits)

lemma close_dollars_cases:
  "r = close_dollars r \<or> r = dollar # close_dollars r"
  by (cases r) (auto simp: close_dollars_def)

lemma match_delimited_sound:
  assumes "match_delimited s = Some (g, rest)"
  shows "\<exists>d1 d2. dollar_delimited s [] d1 g d2 rest \<and> newline \<notin> set g \<and> dollar \<notin> set g"
proof -
  from assms obtain r where s: "s = dollar # r"
    by (cases s) (auto simp: match_delimited_def split: if_splits)
  from assms s obtain d r2 where r: "r = d # r2"
    by (cases r) (auto simp: match_delimited_def)
  show ?thesis
  proof (cases "d = dollar")
    case True
    show ?thesis
    proof (cases "content_upto_dollar r2")
      case None
      with assms s r True have g: "g = []" and rest: "rest = close_dollars r2"
        by (auto simp: match_delimited_def)
      from close_dollars_cases [of r2] rest
      have "r2 = rest \<or> r2 = dollar # rest" by simp
      then have "dollar_delimited s [] [dollar] [] [dollar] rest
          \<or> dollar_delimited s [] [dollar] [] [dollar, dollar] rest"
        using s r True by (auto simp: dollar_delimited_def)
      with g show ?thesis by auto
    next
      case (Some p)
      obtain g0 rest0 where p: "p = (g0, rest0)" by (cases p)
      with assms s r True Some have g: "g = g0" and rest: "rest = close_dollars rest0"
        by (auto simp: match_delimited_def)
      from content_upto_dollar_sound Some p
      have r2: "r2 = g0 @ dollar # rest0" and nl: "newline \<notin> set g0" "dollar \<notin> set g0"
        by auto
      from close_dollars_cases [of rest0] rest
      have "rest0 = rest \<or> rest0 = dollar # rest" by simp
      then have "dollar_delimited s [] [dollar, dollar] g [dollar] rest
          \<or> dollar_delimited s [] [dollar, dollar] g [dollar, dollar] rest"
        using s r True r2 g by (auto simp: dollar_delimited_def)
      with g nl show ?thesis by auto
    qed
  next
    case False
    with assms s r obtain g0 rest0 where c: "content_upto_dollar r = Some (g0, rest0)"
      and g: "g = g0" and rest: "rest = close_dollars rest0"
      by (auto simp: match_delimited_def split: option.splits)
    from content_upto_dollar_sound [OF c]
    have r': "r = g0 @ dollar # rest0" and nl: "newline \<notin> set g0" "dollar \<notin> set g0"
      by auto
    from close_dollars_cases [of rest0] rest
    have "rest0 = rest \<or> rest0 = dollar # rest" by simp
    then have "dollar_delimited s [] [dollar] g [dollar] rest
        \<or> dollar_delimited s [] [dollar] g [dollar, dollar] rest"
      using s r' g by (auto simp: dollar_delimited_def)
    with g nl show ?thesis by auto
  qed
qed

lemma match_delimited_complete:
  assumes "dollar_delimited s [] d1 c d2 post" and "newline \<notin> set c"
  shows "match_delimited s \<noteq> None"
proof -
  from assms(1) have s: "s = d1 @ c @ d2 @ post"
    and d1: "d1 = [dollar] \<or> d1 = [dollar, dollar]"
    and d2: "d2 = [dollar] \<or> d2 = [dollar, dollar]"
    by (auto simp: dollar_delimited_def)
  from d2 obtain e where e: "d2 @ post = dollar # e" by auto
  from d1 s obtain r where r: "s = dollar # r" by auto
  have "r \<noteq> []" using r s d1 d2 by auto
  then obtain d r2 where dr: "r = d # r2" by (cases r) auto
  show ?thesis
  proof (cases "d = dollar")
    case True
    with r dr show ?thesis by (auto simp: match_delimited_def split: option.splits)
  next
    case False
    with d1 s r dr have "d1 = [dollar]" by auto
    with s r e have "r = c @ dollar # e" by simp
    with assms(2) have "content_upto_dollar r \<noteq> None"
      by (simp add: content_upto_dollar_complete)
    with r dr False show ?thesis by (auto simp: match_delimited_def)
  qed
qed

lemma match_delimited_shorter:
  assumes "match_delimited (x # xs) = Some (g, rest)"
  shows "length rest \<le> length xs"
proof -
  from match_delimited_sound [OF assms] obtain d1 d2
    where "dollar_delimited (x # xs) [] d1 g d2 rest" by blast
  then have eq: "x # xs = d1 @ g @ d2 @ rest" and "d1 \<noteq> []" and "d2 \<noteq> []"
    by (auto simp: dollar_delimited_def)
  then have "1 \<le> length d1" and "1 \<le> length d2"
    by (simp_all add: Suc_le_eq)
  moreover from eq have "length (x # xs) = length d1 + length g + length d2 + length rest"
    by (metis length_append add.assoc)
  ultimately show ?thesis by simp
qed

lemma findall_delimited_Cons:
  "findall_delimited (x # xs) =
     (case match_delimited (x # xs) of
        None \<Rightarrow> findall_delimited xs
      | Some (g, rest) \<Rightarrow> g # findall_delimited rest)"
  using match_delimited_shorter [of x xs] by (auto split: option.splits)

lemma dollar_delimited_tail:
  assumes "dollar_delimited (x # xs) pre d1 c d2 post" and "pre \<noteq> []"
  shows "dollar_delimited xs (tl pre) d1 c d2 post"
  using assms by (cases pre) (auto simp: dollar_delimited_def)

lemma dollar_delimited_Cons:
  "dollar_delimited xs pre d1 c d2 post \<Longrightarrow> dollar_delimited (x # xs) (x # pre) d1 c d2 post"
  by (auto simp: dollar_delimited_def)

lemma dollar_delimited_nonempty_pre:
  assumes "match_delimited s = None" and "dollar_delimited s pre d1 c d2 post"
    and "newline \<notin> set c"
  shows "pre \<noteq> []"
  using assms match_delimited_complete by blast

lemma findall_delimited_empty:
  "findall_delimited raw = [] \<Longrightarrow> dollar_delimited raw pre d1 c d2 post \<Longrightarrow> newline \<in> set c"
proof (induction raw arbitrary: pre)
  case Nil
  then show ?case by (auto simp: dollar_delimited_def)
next
  case (Cons x xs)
  from Cons.prems(1) have m: "match_delimited (x # xs) = None" and f: "findall_delimited xs = []"
    by (auto simp: findall_delimited_Cons simp del: findall_delimited.simps split: option.splits)
  show ?case
  proof (rule ccontr)
    assume nl: "newline \<notin> set c"
    with m Cons.prems(2) have "pre \<noteq> []" by (rule dollar_delimited_nonempty_pre)
    with Cons.prems(2) have "dollar_delimited xs (tl pre) d1 c d2 post"
      by (rule dollar_delimited_tail)
    with Cons.IH [OF f] nl show False by blast
  qed
qed

lemma dollar_delimited_has_dollar:
  "dollar_delimited raw pre d1 c d2 post \<Longrightarrow> dollar \<in> set raw"
  by (auto simp: dollar_delimited_def)


lemma no_double_opening:
  assumes "content_upto_dollar r2 = None"
  shows "\<not> (\<exists>c' d2' post'.
      dollar_delimited (dollar # dollar # r2) [] [dollar, dollar] c' d2' post' \<and> newline \<notin> set c')"
proof
  assume "\<exists>c' d2' post'.
      dollar_delimited (dollar # dollar # r2) [] [dollar, dollar] c' d2' post' \<and> newline \<notin> set c'"
  then obtain c' d2' post'
    where dd: "dollar_delimited (dollar # dollar # r2) [] [dollar, dollar] c' d2' post'"
      and nl: "newline \<notin> set c'" by blast
  from dd obtain e where "r2 = c' @ dollar # e" by (auto simp: dollar_delimited_def)
  with nl assms content_upto_dollar_complete show False by blast
qed

lemma match_delimited_first:
  assumes "match_delimited s = Some (g, rest)"
  shows "\<exists>d1 d2.
     dollar_delimited s [] d1 g d2 rest \<and> newline \<notin> set g \<and> dollar \<notin> set g
     \<and> (d1 = [dollar] \<longrightarrow>
          \<not> (\<exists>c' d2' post'. dollar_delimited s [] [dollar, dollar] c' d2' post' \<and> newline \<notin> set c'))"
proof -
  from assms obtain r where s: "s = dollar # r"
    by (cases s) (auto simp: match_delimited_def split: if_splits)
  from assms s obtain d r2 where r: "r = d # r2"
    by (cases r) (auto simp: match_delimited_def)
  show ?thesis
  proof (cases "d = dollar")
    case True
    show ?thesis
    proof (cases "content_upto_dollar r2")
      case None
      with assms s r True have g: "g = []" and rest: "rest = close_dollars r2"
        by (auto simp: match_delimited_def)
      from close_dollars_cases [of r2] rest
      have "r2 = rest \<or> r2 = dollar # rest" by simp
      then have "dollar_delimited s [] [dollar] [] [dollar] rest
          \<or> dollar_delimited s [] [dollar] [] [dollar, dollar] rest"
        using s r True by (auto simp: dollar_delimited_def)
      moreover from no_double_opening [OF None] s r True
      have "\<not> (\<exists>c' d2' post'. dollar_delimited s [] [dollar, dollar] c' d2' post' \<and> newline \<notin> set c')"
        by simp
      ultimately show ?thesis using g by auto
    next
      case (Some p)
      obtain g0 rest0 where p: "p = (g0, rest0)" by (cases p)
      with assms s r True Some have g: "g = g0" and rest: "rest = close_dollars rest0"
        by (auto simp: match_delimited_def)
      from content_upto_dollar_sound Some p
      have r2: "r2 = g0 @ dollar # rest0" and nl: "newline \<notin> set g0" "dollar \<notin> set g0"
        by auto
      from close_dollars_cases [of rest0] rest
      have "rest0 = rest \<or> rest0 = dollar # rest" by simp
      then have "dollar_delimited s [] [dollar, dollar] g [dollar] rest
          \<or> dollar_delimited s [] [dollar, dollar] g [dollar, dollar] rest"
        using s r True r2 g by (auto simp: dollar_delimited_def)
      with g nl show ?thesis by auto
    qed
  next
    case False
    with assms s r obtain g0 rest0 where c: "content_upto_dollar r = Some (g0, rest0)"
      and g: "g = g0" and rest: "rest = close_dollars rest0"
      by (auto simp: match_delimited_def split: option.splits)
    from content_upto_dollar_sound [OF c]
    have r': "r = g0 @ dollar # rest0" and nl: "newline \<notin> set g0" "dollar \<notin> set g0"
      by auto
    from close_dollars_cases [of rest0] rest
    have "rest0 = rest \<or> rest0 = dollar # rest" by simp
    then have "dollar_delimited s [] [dollar] g [dollar] rest
        \<or> dollar_delimited s [] [dollar] g [dollar, dollar] rest"
      using s r' g by (auto simp: dollar_delimited_def)
    moreover from s r False
    have "\<not> (\<exists>c' d2' post'. dollar_delimited s [] [dollar, dollar] c' d2' post' \<and> newline \<notin> set c')"
      by (auto simp: dollar_delimited_def)
    ultimately show ?thesis using g nl by auto
  qed
qed

lemma first_delimited_Cons:
  assumes m: "match_delimited (x # xs) = None"
    and f: "first_delimited xs pre d1 c d2 post"
  shows "first_delimited (x # xs) (x # pre) d1 c d2 post"
proof -
  from f have dd: "dollar_delimited xs pre d1 c d2 post" and nl: "newline \<notin> set c"
    and nd: "dollar \<notin> set c"
    and least: "\<And>pre' d1' c' d2' post'.
       dollar_delimited xs pre' d1' c' d2' post' \<Longrightarrow> newline \<notin> set c' \<Longrightarrow>
       length pre \<le> length pre'"
    and greedy: "d1 = [dollar] \<Longrightarrow>
       \<not> (\<exists>c' d2' post'. dollar_delimited xs pre [dollar, dollar] c' d2' post' \<and> newline \<notin> set c')"
    unfolding first_delimited_def by blast+
  have 1: "length (x # pre) \<le> length pre'"
    if a: "dollar_delimited (x # xs) pre' d1' c' d2' post'" and b: "newline \<notin> set c'"
    for pre' d1' c' d2' post'
  proof -
    from m a b have ne: "pre' \<noteq> []" by (rule dollar_delimited_nonempty_pre)
    with a have "dollar_delimited xs (tl pre') d1' c' d2' post'"
      by (rule dollar_delimited_tail)
    from least [OF this b] ne show ?thesis by (cases pre') auto
  qed
  have 2: "\<not> (\<exists>c' d2' post'.
       dollar_delimited (x # xs) (x # pre) [dollar, dollar] c' d2' post' \<and> newline \<notin> set c')"
    if "d1 = [dollar]"
  proof
    assume "\<exists>c' d2' post'.
       dollar_delimited (x # xs) (x # pre) [dollar, dollar] c' d2' post' \<and> newline \<notin> set c'"
    then obtain c' d2' post'
      where a: "dollar_delimited (x # xs) (x # pre) [dollar, dollar] c' d2' post'"
        and b: "newline \<notin> set c'" by blast
    from a have "dollar_delimited xs pre [dollar, dollar] c' d2' post'"
      by (auto simp: dollar_delimited_def)
    with greedy [OF that] b show False by blast
  qed
  from dollar_delimited_Cons [OF dd, of x] nl nd 1 2 show ?thesis
    unfolding first_delimited_def by blast
qed

lemma findall_delimited_first:
  "findall_delimited raw = m # ms \<Longrightarrow> \<exists>pre d1 d2 post. first_delimited raw pre d1 m d2 post"
proof (induction raw)
  case Nil
  then show ?case by simp
next
  case (Cons x xs)
  show ?case
  proof (cases "match_delimited (x # xs)")
    case None
    with Cons.prems have f: "findall_delimited xs = m # ms"
      by (simp add: findall_delimited_Cons del: findall_delimited.simps)
    from Cons.IH [OF f] obtain pre d1 d2 post where "first_delimited xs pre d1 m d2 post"
      by blast
    with None have "first_delimited (x # xs) (x # pre) d1 m d2 post"
      by (rule first_delimited_Cons)
    then show ?thesis by blast
  next
    case (Some p)
    obtain g rest where p: "p = (g, rest)" by (cases p)
    with Some Cons.prems have g: "g = m"
      by (simp add: findall_delimited_Cons del: findall_delimited.simps)
    from Some p g have "match_delimited (x # xs) = Some (m, rest)" by simp
    from match_delimited_first [OF this] obtain d1 d2
      where "dollar_delimited (x # xs) [] d1 m d2 rest" "newline \<notin> set m" "dollar \<notin> set m"
        "d1 = [dollar] \<longrightarrow>
          \<not> (\<exists>c' d2' post'. dollar_delimited (x # xs) [] [dollar, dollar] c' d2' post'
               \<and> newline \<notin> set c')"
      by blast
    then have "first_delimited (x # xs) [] d1 m d2 rest"
      unfolding first_delimited_def by simp
    then show ?thesis by blast
  qed
qed

lemma content_before_dollar:
  assumes "c @ dollar # u = c' @ dollar # u'" and "dollar \<notin> set c" and "dollar \<notin> set c'"
  shows "c = c'"
proof -
  from assms(2) have "takeWhile (\<lambda>x. x \<noteq> dollar) (c @ dollar # u) = c"
    by (induction c) auto
  moreover from assms(3) have "takeWhile (\<lambda>x. x \<noteq> dollar) (c' @ dollar # u') = c'"
    by (induction c') auto
  ultimately show ?thesis using assms(1) by simp
qed

lemma first_delimited_unique:
  assumes a: "first_delimited raw pre d1 c d2 post"
    and b: "first_delimited raw pre' d1' c' d2' post'"
  shows "c = c'"
proof -
  from a have da: "dollar_delimited raw pre d1 c d2 post" and nla: "newline \<notin> set c"
    and nda: "dollar \<notin> set c"
    by (auto simp: first_delimited_def)
  from b have db: "dollar_delimited raw pre' d1' c' d2' post'" and nlb: "newline \<notin> set c'"
    and ndb: "dollar \<notin> set c'"
    by (auto simp: first_delimited_def)
  from a db nlb have "length pre \<le> length pre'" unfolding first_delimited_def by blast
  moreover from b da nla have "length pre' \<le> length pre" unfolding first_delimited_def by blast
  ultimately have len: "length pre = length pre'" by simp
  from da db have "pre @ d1 @ c @ d2 @ post = pre' @ d1' @ c' @ d2' @ post'"
    by (simp add: dollar_delimited_def)
  with len have pre: "pre = pre'" and rest: "d1 @ c @ d2 @ post = d1' @ c' @ d2' @ post'"
    by simp_all
  from da obtain u where u: "d2 @ post = dollar # u" by (auto simp: dollar_delimited_def)
  from db obtain u' where u': "d2' @ post' = dollar # u'" by (auto simp: dollar_delimited_def)
  have d: "d1 = d1'"
  proof (rule ccontr)
    assume ne: "d1 \<noteq> d1'"
    from da db ne consider "d1 = [dollar]" "d1' = [dollar, dollar]"
      | "d1 = [dollar, dollar]" "d1' = [dollar]"
      by (auto simp: dollar_delimited_def)
    then show False
    proof cases
      case 1
      with a have "\<not> (\<exists>c' d2' post'.
          dollar_delimited raw pre [dollar, dollar] c' d2' post' \<and> newline \<notin> set c')"
        by (simp add: first_delimited_def)
      with db nlb pre 1 show False by blast
    next
      case 2
      with b have "\<not> (\<exists>c d2 post.
          dollar_delimited raw pre' [dollar, dollar] c d2 post \<and> newline \<notin> set c)"
        by (simp add: first_delimited_def)
      with da nla pre 2 show False by blast
    qed
  qed
  with rest have "c @ d2 @ post = c' @ d2' @ post'" by simp
  with u u' have "c @ dollar # u = c' @ dollar # u'" by simp
  then show ?thesis using nda ndb by (rule content_before_dollar)
qed

text \<open>
  Claim C8 as stated: the extractor returns the trimmed content of the first substring
  delimited by dollars whenever there is one. It does not when a line feed stands between
  the delimiters: \<open>.\<close> does not match a line feed, the search finds nothing, and the
  whole input is returned, trimmed, with its dollars.
\<close>

theorem extract_skips_multiline:
  "dollar_delimited ''$a\<newline>b$'' [] ''$'' ''a\<newline>b'' ''$'' []
   \<and> extract_math_expr ''$a\<newline>b$'' = ''$a\<newline>b$''
   \<and> extract_math_expr ''$a\<newline>b$'' \<noteq> strip_ws ''a\<newline>b''"
  by code_simp

text \<open>
  Claim C8, amended: if the input has no dollar-delimited substring whose content is free
  of line feeds, the extractor returns the input trimmed. If it has one, the extractor
  returns the trimmed content of the first match: the one that starts leftmost, opens
  with two dollars whenever a match with two opening dollars starts there, and whose
  content ends at the first dollar that follows. These conditions fix the content; a
  first match exists whenever a match exists. The extractor is a total function and
  never raises.
\<close>

theorem extract_first_delimited:
  "((\<forall>pre d1 c d2 post. dollar_delimited raw pre d1 c d2 post \<longrightarrow> newline \<in> set c) \<longrightarrow>
      extract_math_expr raw = strip_ws raw)
   \<and> (first_delimited raw pre d1 c d2 post \<longrightarrow> extract_math_expr raw = strip_ws c)
   \<and> ((\<exists>pre d1 c d2 post. dollar_delimited raw pre d1 c d2 post \<and> newline \<notin> set c) \<longrightarrow>
      (\<exists>pre d1 c d2 post. first_delimited raw pre d1 c d2 post))"
proof (cases "findall_delimited raw")
  case Nil
  then have e: "extract_math_expr raw = strip_ws raw" by (simp add: extract_math_expr_def)
  from Nil have none: "\<And>pre d1 c d2 post.
      dollar_delimited raw pre d1 c d2 post \<Longrightarrow> newline \<in> set c"
    by (rule findall_delimited_empty)
  then have "\<not> first_delimited raw pre d1 c d2 post"
    unfolding first_delimited_def by blast
  with e none show ?thesis by blast
next
  case (Cons m ms)
  then have e: "extract_math_expr raw = strip_ws m" by (simp add: extract_math_expr_def)
  from findall_delimited_first [OF Cons] obtain pre0 d10 d20 post0
    where f: "first_delimited raw pre0 d10 m d20 post0" by blast
  then have valid: "dollar_delimited raw pre0 d10 m d20 post0 \<and> newline \<notin> set m"
    by (simp add: first_delimited_def)
  have 2: "extract_math_expr raw = strip_ws c" if "first_delimited raw pre d1 c d2 post"
    using first_delimited_unique [OF that f] e by simp
  from valid 2 f show ?thesis by blast
qed

theorem extract_first_delimited_witness:
  "extract_math_expr '' x + 1 '' = ''x + 1''
   \<and> extract_math_expr ''$$x$$'' = ''x''
   \<and> extract_math_expr ''$$ x'' = []
   \<and> extract_math_expr ''a $x$ b $y$'' = ''x''"
proof -
  have "dollar \<notin> set '' x + 1 ''" by (simp add: dollar_def)
  then have h: "\<forall>pre d1 c d2 post.
      dollar_delimited '' x + 1 '' pre d1 c d2 post \<longrightarrow> newline \<in> set c"
    using dollar_delimited_has_dollar by blast
  have s: "strip_ws '' x + 1 '' = ''x + 1''" "strip_ws ''x'' = ''x''" "strip_ws [] = []"
    by code_simp+
  from extract_first_delimited [of "'' x + 1 ''"] h s
  have 1: "extract_math_expr '' x + 1 '' = ''x + 1''" by simp
  have "first_delimited ''$$x$$'' [] [dollar, dollar] ''x'' [dollar, dollar] []"
    by (simp add: first_delimited_def dollar_delimited_def dollar_def newline_def)
  with extract_first_delimited [of "''$$x$$''" "[]" "[dollar, dollar]" "''x''" "[dollar, dollar]" "[]"] s
  have 2: "extract_math_expr ''$$x$$'' = ''x''" by simp
  have "dollar \<notin> set '' x''" by (simp add: dollar_def)
  then have "\<not> (\<exists>c' d2' post'.
      dollar_delimited ''$$ x'' [] [dollar, dollar] c' d2' post' \<and> newline \<notin> set c')"
    by (auto simp: dollar_delimited_def dollar_def Cons_eq_append_conv append_eq_Cons_conv)
  then have "first_delimited ''$$ x'' [] [dollar] [] [dollar] '' x''"
    by (simp add: first_delimited_def dollar_delimited_def dollar_def)
  with extract_first_delimited [of "''$$ x''" "[]" "[dollar]" "[]" "[dollar]" "'' x''"] s
  have 3: "extract_math_expr ''$$ x'' = []" by simp
  have least: "length ''a '' \<le> length pre'"
    if "dollar_delimited ''a $x$ b $y$'' pre' d1' c' d2' post'" for pre' d1' c' d2' post'
  proof -
    from that obtain e where eq: "''a $x$ b $y$'' = pre' @ dollar # e"
      by (auto simp: dollar_delimited_def)
    show ?thesis
    proof (cases pre')
      case Nil
      with eq show ?thesis by (simp add: dollar_def)
    next
      case outer: (Cons a p1)
      show ?thesis
      proof (cases p1)
        case Nil
        with outer eq show ?thesis by (simp add: dollar_def)
      next
        case (Cons b p2)
        with outer show ?thesis by simp
      qed
    qed
  qed
  have dd: "dollar_delimited ''a $x$ b $y$'' ''a '' [dollar] ''x'' [dollar] '' b $y$''"
    by (simp add: dollar_delimited_def dollar_def)
  have nn: "newline \<notin> set ''x''" "dollar \<notin> set ''x''"
    by (simp_all add: newline_def dollar_def)
  have gr: "\<not> (\<exists>c' d2' post'.
      dollar_delimited ''a $x$ b $y$'' ''a '' [dollar, dollar] c' d2' post' \<and> newline \<notin> set c')"
    by (simp add: dollar_delimited_def dollar_def)
  have "first_delimited ''a $x$ b $y$'' ''a '' [dollar] ''x'' [dollar] '' b $y$''"
    unfolding first_delimited_def using dd nn gr least by blast
  with extract_first_delimited [of "''a $x$ b $y$''" "''a ''" "[dollar]" "''x''" "[dollar]"
      "'' b $y$''"] s
  have 4: "extract_math_expr ''a $x$ b $y$'' = ''x''" by simp
  from 1 2 3 4 show ?thesis by simp
qed

section \<open>Properties of the macro translator\<close>

text \<open>
  Every pattern of the translator consumes at least one character, so the length test
  of \<open>re_sub\<close> is true at every match.
\<close>

lemma lit_shorter: "lit p s = Some r \<Longrightarrow> p \<noteq> [] \<Longrightarrow> length r < length s"
  by (cases s) (auto simp: lit_def split: if_splits)

lemma lit_le: "lit p s = Some r \<Longrightarrow> length r \<le> length s"
  by (auto simp: lit_def split: if_splits)

lemma group_until_shorter: "group_until c s = Some (g, r) \<Longrightarrow> length r < length s"
proof -
  assume a: "group_until c s = Some (g, r)"
  then have "dropWhile (\<lambda>x. x \<noteq> c) s \<noteq> []" and "r = tl (dropWhile (\<lambda>x. x \<noteq> c) s)"
    by (auto simp: group_until_def Let_def split: if_splits)
  then have "length r < length (dropWhile (\<lambda>x. x \<noteq> c) s)" by (cases "dropWhile (\<lambda>x. x \<noteq> c) s") auto
  also have "\<dots> \<le> length s" by (rule length_dropWhile_le)
  finally show ?thesis .
qed

lemma match_frac_shorter: "match_frac s = Some (rep, rest) \<Longrightarrow> length rest < length s"
  by (auto simp: match_frac_def split: option.splits
      dest!: lit_le group_until_shorter)

lemma match_root_shorter: "match_root s = Some (rep, rest) \<Longrightarrow> length rest < length s"
  by (auto simp: match_root_def split: option.splits
      dest!: lit_le group_until_shorter)

lemma match_macro_shorter: "match_macro name out s = Some (rep, rest) \<Longrightarrow> length rest < length s"
  by (auto simp: match_macro_def split: option.splits
      dest!: lit_le group_until_shorter)

lemma match_word_shorter:
  "p \<noteq> [] \<Longrightarrow> match_word p out s = Some (rep, rest) \<Longrightarrow> length rest < length s"
  by (auto simp: match_word_def split: option.splits dest: lit_shorter)

lemma re_sub_consuming:
  assumes "\<And>s rep rest. m s = Some (rep, rest) \<Longrightarrow> length rest < length s"
  shows "re_sub m (c # cs) =
     (case m (c # cs) of None \<Rightarrow> c # re_sub m cs | Some (rep, rest) \<Rightarrow> rep @ re_sub m rest)"
  using assms [of "c # cs"] by (auto split: option.splits)






lemma lit_needs_bslash: "c \<noteq> bslash \<Longrightarrow> lit (bslash # p) (c # cs) = None"
  by (simp add: lit_def)

lemma matchers_need_bslash:
  "c \<noteq> bslash \<Longrightarrow> match_frac (c # cs) = None"
  "c \<noteq> bslash \<Longrightarrow> match_root (c # cs) = None"
  "c \<noteq> bslash \<Longrightarrow> match_macro name out (c # cs) = None"
  "c \<noteq> bslash \<Longrightarrow> match_word (bslash # w) out (c # cs) = None"
  by (simp_all add: match_frac_def match_root_def match_macro_def match_word_def lit_def)

lemma re_sub_plain:
  assumes "\<forall>c cs. c \<noteq> bslash \<longrightarrow> m (c # cs) = None" and "bslash \<notin> set s"
  shows "re_sub m (s @ t) = s @ re_sub m t"
  using assms(2)
proof (induction s)
  case Nil
  then show ?case by simp
next
  case (Cons a s)
  then have "a \<noteq> bslash" by auto
  with assms(1) have "m (a # s @ t) = None" by blast
  with Cons show ?case by simp
qed

lemma re_sub_plain_rules:
  "bslash \<notin> set s \<Longrightarrow> re_sub match_frac (s @ t) = s @ re_sub match_frac t"
  "bslash \<notin> set s \<Longrightarrow> re_sub match_root (s @ t) = s @ re_sub match_root t"
  "bslash \<notin> set s \<Longrightarrow> re_sub (match_macro name out) (s @ t) = s @ re_sub (match_macro name out) t"
  "bslash \<notin> set s \<Longrightarrow>
   re_sub (match_word (bslash # w) out) (s @ t) = s @ re_sub (match_word (bslash # w) out) t"
  by (rule re_sub_plain; simp add: matchers_need_bslash)+































end
